theory Spec2Isabelle
  imports Main "HOL-Library.Word" "HOL-Library.AList"
begin

unbundle bit_operations_syntax

section \<open>Bytes, errors and the block file\<close>

type_synonym byte = "8 word"
type_synonym bytes = "byte list"

text \<open>
  The two ways the record operations can raise: an attribute access on a missing
  block (\<open>None\<close>) and an I/O failure of a read on the block.
\<close>

datatype error = AttributeError | IOError

text \<open>
  The block is a seekable binary stream, as \<open>io.BytesIO\<close>: its bytes, its read cursor
  (which may stand beyond the end after a seek), and a script of the outcomes of the
  coming reads (\<open>True\<close>: the read raises; an empty script: every read succeeds).
\<close>

record BytesIO =
  content :: bytes
  pos :: nat
  faults :: "bool list"

definition tell :: "BytesIO \<Rightarrow> nat" where
  "tell f = pos f"

definition seek :: "nat \<Rightarrow> BytesIO \<Rightarrow> BytesIO" where
  "seek offset f = f\<lparr>pos := offset\<rparr>"

text \<open>\<open>seek(0, 2)\<close>: to the end of the stream.\<close>

definition seek_end :: "BytesIO \<Rightarrow> BytesIO" where
  "seek_end f = f\<lparr>pos := length (content f)\<rparr>"

text \<open>
  \<open>read(n)\<close>: at most \<open>n\<close> bytes from the cursor, fewer at the end of the stream; a
  negative \<open>n\<close> reads to the end of the stream. The cursor advances by what was read.
\<close>

definition read :: "int \<Rightarrow> BytesIO \<Rightarrow> (error + bytes) \<times> BytesIO" where
  "read n f =
     (if faults f \<noteq> [] \<and> hd (faults f) then (Inl IOError, f\<lparr>faults := tl (faults f)\<rparr>)
      else
        (let rest = drop (pos f) (content f);
             data = (if n < 0 then rest else take (nat n) rest)
         in (Inr data, f\<lparr>pos := pos f + length data, faults := tl (faults f)\<rparr>)))"

text \<open>
  Modelled from the spec: \<open>wpull.util.reset_file_offset\<close>, the scoped cursor save and
  restore, is not among the sources. The spec gives it as "acquire original offset, run
  body, restore in a guaranteed-run finalizer": the offset is restored on every exit of
  the body, also when the body raised.
\<close>

definition reset_file_offset ::
  "BytesIO \<Rightarrow> (BytesIO \<Rightarrow> 'a \<times> BytesIO) \<Rightarrow> 'a \<times> BytesIO" where
  "reset_file_offset f body =
     (let offset = tell f in
      case body f of (r, f') \<Rightarrow> (r, seek offset f'))"

section \<open>SHA-1 and Base32 (the library primitives used by the record)\<close>

type_synonym u32 = "32 word"

definition rotl :: "nat \<Rightarrow> u32 \<Rightarrow> u32" where
  "rotl n x = push_bit n x OR drop_bit (32 - n) x"

definition be32 :: "bytes \<Rightarrow> u32" where
  "be32 bs = foldl (\<lambda>acc b. push_bit 8 acc OR ucast b) 0 bs"

fun chunks_of :: "nat \<Rightarrow> 'a list \<Rightarrow> 'a list list" where
  "chunks_of n [] = []"
| "chunks_of n (x # xs) =
     (if n = 0 then [] else take n (x # xs) # chunks_of n (drop n (x # xs)))"

definition u64_bytes :: "nat \<Rightarrow> bytes" where
  "u64_bytes n = map (\<lambda>i. word_of_nat (n div 2 ^ (8 * (7 - i)))) [0..<8]"

definition sha1_pad :: "bytes \<Rightarrow> bytes" where
  "sha1_pad m = m @ [0x80] @ replicate ((119 - length m mod 64) mod 64) 0
                  @ u64_bytes (8 * length m)"

definition sha1_f :: "nat \<Rightarrow> u32 \<Rightarrow> u32 \<Rightarrow> u32 \<Rightarrow> u32" where
  "sha1_f t b c d =
     (if t < 20 then (b AND c) OR (NOT b AND d)
      else if t < 40 then b XOR c XOR d
      else if t < 60 then (b AND c) OR (b AND d) OR (c AND d)
      else b XOR c XOR d)"

definition sha1_k :: "nat \<Rightarrow> u32" where
  "sha1_k t =
     (if t < 20 then 0x5A827999
      else if t < 40 then 0x6ED9EBA1
      else if t < 60 then 0x8F1BBCDC
      else 0xCA62C1D6)"

definition sha1_extend :: "u32 list \<Rightarrow> nat \<Rightarrow> u32 list" where
  "sha1_extend ws t =
     ws @ [rotl 1 (ws ! (t - 3) XOR ws ! (t - 8) XOR ws ! (t - 14) XOR ws ! (t - 16))]"

definition sha1_schedule :: "bytes \<Rightarrow> u32 list" where
  "sha1_schedule blk = foldl sha1_extend (map be32 (chunks_of 4 blk)) [16..<80]"

type_synonym sha1_state = "u32 \<times> u32 \<times> u32 \<times> u32 \<times> u32"

fun sha1_round :: "u32 list \<Rightarrow> sha1_state \<Rightarrow> nat \<Rightarrow> sha1_state" where
  "sha1_round ws (a, b, c, d, e) t =
     (rotl 5 a + sha1_f t b c d + e + sha1_k t + ws ! t, a, rotl 30 b, c, d)"

fun sha1_add :: "sha1_state \<Rightarrow> sha1_state \<Rightarrow> sha1_state" where
  "sha1_add (h0, h1, h2, h3, h4) (a, b, c, d, e) =
     (h0 + a, h1 + b, h2 + c, h3 + d, h4 + e)"

definition sha1_block :: "sha1_state \<Rightarrow> bytes \<Rightarrow> sha1_state" where
  "sha1_block h blk = sha1_add h (foldl (sha1_round (sha1_schedule blk)) h [0..<80])"

definition sha1_init :: sha1_state where
  "sha1_init = (0x67452301, 0xEFCDAB89, 0x98BADCFE, 0x10325476, 0xC3D2E1F0)"

definition u32_bytes :: "u32 \<Rightarrow> bytes" where
  "u32_bytes w = [ucast (drop_bit 24 w), ucast (drop_bit 16 w), ucast (drop_bit 8 w), ucast w]"

fun sha1_out :: "sha1_state \<Rightarrow> bytes" where
  "sha1_out (a, b, c, d, e) = concat (map u32_bytes [a, b, c, d, e])"

text \<open>The SHA-1 digest of a byte string (FIPS 180), 20 bytes.\<close>

definition sha1 :: "bytes \<Rightarrow> bytes" where
  "sha1 m = sha1_out (foldl sha1_block sha1_init (chunks_of 64 (sha1_pad m)))"

text \<open>
  A \<open>hashlib\<close> hasher: \<open>update\<close> feeds bytes, and \<open>digest\<close> is the digest of the
  concatenation of everything fed so far.
\<close>

type_synonym hasher = bytes

definition hashlib_sha1 :: hasher where
  "hashlib_sha1 = []"

definition update :: "hasher \<Rightarrow> bytes \<Rightarrow> hasher" where
  "update h data = h @ data"

definition digest :: "hasher \<Rightarrow> bytes" where
  "digest h = sha1 h"

text \<open>
  \<open>base64.b32encode\<close> followed by \<open>.decode()\<close>: the input is padded with zero
  bytes to a multiple of five, every five bytes are read as one big-endian number and
  give eight characters of the alphabet, and the characters that stand for padding only
  are replaced by \<open>=\<close>.
\<close>

definition b32alphabet :: string where
  "b32alphabet = ''ABCDEFGHIJKLMNOPQRSTUVWXYZ234567''"

definition from_bytes :: "bytes \<Rightarrow> nat" where
  "from_bytes bs = foldl (\<lambda>acc b. 256 * acc + unat b) 0 bs"

definition b32group :: "bytes \<Rightarrow> string" where
  "b32group g = map (\<lambda>i. b32alphabet ! (from_bytes g div 32 ^ (7 - i) mod 32)) [0..<8]"

definition b32pad :: "nat \<Rightarrow> nat" where
  "b32pad leftover =
     (if leftover = 1 then 6 else if leftover = 2 then 4
      else if leftover = 3 then 3 else if leftover = 4 then 1 else 0)"

definition b32encode :: "bytes \<Rightarrow> string" where
  "b32encode s =
     (let leftover = length s mod 5;
          s' = (if leftover \<noteq> 0 then s @ replicate (5 - leftover) 0 else s);
          encoded = concat (map b32group (chunks_of 5 s'))
      in take (length encoded - b32pad leftover) encoded
           @ replicate (b32pad leftover) (CHR ''=''))"

text \<open>
  Base 32 as RFC 4648, section 6, words it: the input is a stream of bits, most
  significant bit of each byte first; zero bits are added on the right to form an
  integral number of 5-bit groups; each 5-bit group is the index of a character of the
  alphabet; and \<open>=\<close> characters complete the last group of eight characters.
\<close>

definition bits_of :: "byte \<Rightarrow> bool list" where
  "bits_of b = map (bit b) [7, 6, 5, 4, 3, 2, 1, 0]"

definition bitstream :: "bytes \<Rightarrow> bool list" where
  "bitstream bs = concat (map bits_of bs)"

definition bits_value :: "bool list \<Rightarrow> nat" where
  "bits_value bits = foldl (\<lambda>n b. 2 * n + of_bool b) 0 bits"

definition rfc4648_base32 :: "bytes \<Rightarrow> string" where
  "rfc4648_base32 bs =
     (let bits = bitstream bs;
          padded = bits @ replicate ((5 - length bits mod 5) mod 5) False;
          chars = map (\<lambda>g. b32alphabet ! bits_value g) (chunks_of 5 padded)
      in chars @ replicate ((8 - length chars mod 8) mod 8) (CHR ''=''))"

text \<open>\<open>'sha1:{0}'.format(base64.b32encode(h).decode())\<close>\<close>

definition digest_str :: "bytes \<Rightarrow> string" where
  "digest_str h = ''sha1:'' @ b32encode h"

text \<open>\<open>str\<close> of a non-negative integer: its decimal digits.\<close>

definition digit_char :: "nat \<Rightarrow> char" where
  "digit_char d = ''0123456789'' ! d"

function str :: "nat \<Rightarrow> string" where
  "str n = (if n < 10 then [digit_char n] else str (n div 10) @ [digit_char (n mod 10)])"
  by pat_completeness auto
termination
  by (relation "measure id") auto

declare str.simps [simp del]

text \<open>\<open>.encode()\<close> of an ASCII string.\<close>

definition encode :: "string \<Rightarrow> bytes" where
  "encode s = map (\<lambda>c. of_char c) s"

section \<open>The field container\<close>

definition NAME_OVERRIDES :: "string list" where
  "NAME_OVERRIDES =
     [''WARC-Date'', ''WARC-Type'', ''WARC-Record-ID'', ''WARC-Concurrent-To'',
      ''WARC-Refers-To'', ''Content-Length'', ''Content-Type'', ''WARC-Target-URI'',
      ''WARC-Block-Digest'', ''WARC-IP-Address'', ''WARC-Filename'', ''WARC-Warcinfo-ID'',
      ''WARC-Payload-Digest'']"

definition lower_char :: "char \<Rightarrow> char" where
  "lower_char c =
     (if (65::nat) \<le> of_char c \<and> of_char c \<le> (90::nat) then char_of (of_char c + (32::nat))
      else c)"

definition lower :: "string \<Rightarrow> string" where
  "lower s = map lower_char s"

text \<open>
  Modelled from the spec: \<open>wpull.namevalue.NameValueRecord\<close> is not among the sources.
  The spec gives it as a mapping from field name to field value that keeps insertion
  order, compares names without regard to case, renders the names of the override set
  in their canonical capitalisation, overwrites on every write, and serializes each
  field as \<open>Name: Value\<close> followed by CRLF. Names outside the override set, whose
  rendering the spec leaves open, are keyed by their lowercase form.
\<close>

type_synonym NameValueRecord = "(string \<times> string) list"

definition normalize_name :: "string \<Rightarrow> string" where
  "normalize_name name =
     (case find (\<lambda>ov. lower ov = lower name) NAME_OVERRIDES of
        Some ov \<Rightarrow> ov
      | None \<Rightarrow> lower name)"

definition setitem :: "NameValueRecord \<Rightarrow> string \<Rightarrow> string \<Rightarrow> NameValueRecord" where
  "setitem fs name v = AList.update (normalize_name name) v fs"

definition getitem :: "NameValueRecord \<Rightarrow> string \<Rightarrow> string option" where
  "getitem fs name = map_of fs (normalize_name name)"

definition CRLF :: string where
  "CRLF = [CHR 0x0D, CHR 0x0A]"

definition field_line :: "string \<times> string \<Rightarrow> string" where
  "field_line nv = fst nv @ '': '' @ snd nv @ CRLF"

definition fields_bytes :: "NameValueRecord \<Rightarrow> bytes" where
  "fields_bytes fs = encode (concat (map field_line fs))"

text \<open>
  The container after the writes \<open>ws\<close>, in order, on the empty container that
  \<open>__init__\<close> creates; the names it then holds, in the order of their first write; and
  the value last written under a name.
\<close>

definition writes :: "(string \<times> string) list \<Rightarrow> NameValueRecord" where
  "writes ws = foldl (\<lambda>fs (name, v). setitem fs name v) [] ws"

definition written_names :: "(string \<times> string) list \<Rightarrow> string list" where
  "written_names ws = rev (remdups (rev (map (\<lambda>(name, v). normalize_name name) ws)))"

definition last_written :: "(string \<times> string) list \<Rightarrow> string \<Rightarrow> string" where
  "last_written ws name =
     foldl (\<lambda>acc (name', v). if normalize_name name' = name then v else acc) [] ws"

section \<open>The WARC record\<close>

record WARCRecord =
  record_fields :: NameValueRecord
  block_file :: "BytesIO option"

definition VERSION :: string where
  "VERSION = ''WARC/1.0''"

text \<open>
  An operation returns the error it raised, if any, and the record as it stands
  afterwards (the operations mutate the record and the block in place). The test
  \<open>not self.block_file\<close> holds for a missing block only: a stream object is true also
  when it holds no bytes. The payload offset is \<open>None\<close> or a Python integer.
\<close>

definition set_content_length :: "WARCRecord \<Rightarrow> error option \<times> WARCRecord" where
  "set_content_length r =
     (case block_file r of
        None \<Rightarrow> (None, r\<lparr>record_fields := setitem (record_fields r) ''Content-Length'' ''0''\<rparr>)
      | Some f \<Rightarrow>
          (case reset_file_offset f (\<lambda>f0. let f1 = seek_end f0 in (tell f1, f1)) of
             (n, f') \<Rightarrow>
               (None, r\<lparr>record_fields := setitem (record_fields r) ''Content-Length'' (str n),
                         block_file := Some f'\<rparr>)))"

text \<open>
  The read loop of \<open>compute_checksum\<close>: chunks of 4096 bytes, each fed to both
  hashers, until a read returns no bytes.
\<close>

function hash_loop :: "hasher \<Rightarrow> hasher \<Rightarrow> BytesIO \<Rightarrow> (error + hasher \<times> hasher) \<times> BytesIO" where
  "hash_loop block_hasher payload_hasher f =
     (case read 4096 f of
        (Inl e, f') \<Rightarrow> (Inl e, f')
      | (Inr data, f') \<Rightarrow>
          (if data = [] then (Inr (block_hasher, payload_hasher), f')
           else hash_loop (update block_hasher data) (update payload_hasher data) f'))"
  by pat_completeness auto

termination
  by (relation "measure (\<lambda>(bh, ph, f). length (content f) - pos f)")
     (auto simp: read_def Let_def split: if_splits)

declare hash_loop.simps [simp del]

text \<open>
  The body of the \<open>with\<close> block of \<open>compute_checksum\<close>: the optional single read of
  \<open>payload_offset\<close> bytes into the block hasher only, the read loop, and the final
  cursor position as the content length.
\<close>

definition checksum_body ::
  "int option \<Rightarrow> BytesIO \<Rightarrow> (error + hasher \<times> hasher \<times> nat) \<times> BytesIO" where
  "checksum_body payload_offset f =
     (case (case payload_offset of
              None \<Rightarrow> (Inr hashlib_sha1, f)
            | Some k \<Rightarrow>
                (case read k f of
                   (Inl e, f') \<Rightarrow> (Inl e, f')
                 | (Inr data, f') \<Rightarrow> (Inr (update hashlib_sha1 data), f'))) of
        (Inl e, f1) \<Rightarrow> (Inl e, f1)
      | (Inr block_hasher, f1) \<Rightarrow>
          (case hash_loop block_hasher hashlib_sha1 f1 of
             (Inl e, f2) \<Rightarrow> (Inl e, f2)
           | (Inr (bh, ph), f2) \<Rightarrow> (Inr (bh, ph, tell f2), f2)))"

definition compute_checksum :: "int option \<Rightarrow> WARCRecord \<Rightarrow> error option \<times> WARCRecord" where
  "compute_checksum payload_offset r =
     (case block_file r of
        None \<Rightarrow> (None, r\<lparr>record_fields := setitem (record_fields r) ''Content-Length'' ''0''\<rparr>)
      | Some f \<Rightarrow>
          (case reset_file_offset f (checksum_body payload_offset) of
             (Inl e, f') \<Rightarrow> (Some e, r\<lparr>block_file := Some f'\<rparr>)
           | (Inr (block_hasher, payload_hasher, content_length), f') \<Rightarrow>
               (let fs1 = setitem (record_fields r) ''WARC-Block-Digest''
                            (digest_str (digest block_hasher));
                    fs2 = (if payload_offset \<noteq> None
                           then setitem fs1 ''WARC-Payload-Digest''
                                  (digest_str (digest payload_hasher))
                           else fs1)
                in (None, r\<lparr>record_fields := setitem fs2 ''Content-Length'' (str content_length),
                             block_file := Some f'\<rparr>))))"

text \<open>
  Iterating the record: the chunks yielded, and the error that ended the iteration, if
  any. The read loop yields every non-empty chunk of 4096 bytes.
\<close>

function iter_loop :: "BytesIO \<Rightarrow> (bytes list \<times> error option) \<times> BytesIO" where
  "iter_loop f =
     (case read 4096 f of
        (Inl e, f') \<Rightarrow> (([], Some e), f')
      | (Inr data, f') \<Rightarrow>
          (if data = [] then (([], None), f')
           else (case iter_loop f' of ((cs, e), f'') \<Rightarrow> ((data # cs, e), f''))))"
  by pat_completeness auto
termination
  by (relation "measure (\<lambda>f. length (content f) - pos f)")
     (auto simp: read_def Let_def split: if_splits)

declare iter_loop.simps [simp del]

definition iter_record :: "WARCRecord \<Rightarrow> (bytes list \<times> error option) \<times> WARCRecord" where
  "iter_record r =
     (let head = [encode VERSION, encode CRLF, fields_bytes (record_fields r), encode CRLF]
      in case block_file r of
           None \<Rightarrow> ((head, Some AttributeError), r)
         | Some f \<Rightarrow>
             (case reset_file_offset f iter_loop of
                ((cs, Some e), f') \<Rightarrow> ((head @ cs, Some e), r\<lparr>block_file := Some f'\<rparr>)
              | ((cs, None), f') \<Rightarrow>
                  ((head @ cs @ [encode (CRLF @ CRLF)], None), r\<lparr>block_file := Some f'\<rparr>)))"

section \<open>What the checksum pass computes\<close>

text \<open>
  The functional description of the one pass of \<open>compute_checksum\<close>, against which
  the read loop is verified below: the payload hasher sees the bytes that follow the
  first read (none after a read of negative size, which reads to the end), the block
  hasher sees every byte from the cursor on, and the content length is the final
  cursor position.
\<close>

definition payload_bytes :: "int option \<Rightarrow> BytesIO \<Rightarrow> bytes" where
  "payload_bytes payload_offset f =
     (case payload_offset of
        None \<Rightarrow> drop (pos f) (content f)
      | Some k \<Rightarrow> if k < 0 then [] else drop (pos f + nat k) (content f))"

definition checksum_fields ::
  "int option \<Rightarrow> BytesIO \<Rightarrow> NameValueRecord \<Rightarrow> NameValueRecord" where
  "checksum_fields payload_offset f fs =
     (let fs1 = setitem fs ''WARC-Block-Digest''
                  (digest_str (sha1 (drop (pos f) (content f))));
          fs2 = (if payload_offset \<noteq> None
                 then setitem fs1 ''WARC-Payload-Digest''
                        (digest_str (sha1 (payload_bytes payload_offset f)))
                 else fs1)
      in setitem fs2 ''Content-Length'' (str (max (pos f) (length (content f)))))"

section \<open>Properties of the block file\<close>

lemma read_content [simp]: "content (snd (read n f)) = content f"
  by (simp add: read_def Let_def)

lemma hash_loop_content [simp]: "content (snd (hash_loop bh ph f)) = content f"
proof (induction bh ph f rule: hash_loop.induct)
  case (1 bh ph f)
  show ?case
  proof (cases "read 4096 f")
    case (Pair res f')
    have c: "content f' = content f" using read_content [of 4096 f] Pair by simp
    show ?thesis
    proof (cases res)
      case (Inl e)
      with Pair c show ?thesis by (subst hash_loop.simps) simp
    next
      case (Inr data)
      show ?thesis
      proof (cases "data = []")
        case True
        with Pair Inr c show ?thesis by (subst hash_loop.simps) simp
      next
        case False
        from "1.IH" [OF Pair [symmetric] Inr False] Pair Inr False c
        show ?thesis by (subst hash_loop.simps) simp
      qed
    qed
  qed
qed

lemma read_Inr:
  assumes "read n f = (Inr data, f')"
  shows "data = (if n < 0 then drop (pos f) (content f) else take (nat n) (drop (pos f) (content f)))
       \<and> pos f' = pos f + length data \<and> content f' = content f \<and> faults f' = tl (faults f)"
  using assms by (auto simp: read_def Let_def split: if_splits)

lemma read_no_faults:
  assumes "faults f = []"
  shows "\<exists>data f'. read n f = (Inr data, f') \<and> faults f' = []"
  using assms by (simp add: read_def Let_def)

lemma take_chunk_drop:
  "take n (drop p xs) @ drop (p + length (take n (drop p xs))) xs = drop p xs"
proof -
  define ys where "ys = drop p xs"
  have a: "drop (p + length (take n ys)) xs = drop (length (take n ys)) ys"
    unfolding ys_def by (simp only: drop_drop add.commute)
  have b: "drop (length (take n ys)) ys = drop n ys"
    by (cases "n \<le> length ys") (simp_all add: min_def)
  have "take n ys @ drop (p + length (take n ys)) xs = ys"
    unfolding a b by (rule append_take_drop_id)
  then show ?thesis unfolding ys_def .
qed

lemma hash_loop_Inr:
  "hash_loop bh ph f = (Inr (bh', ph'), f') \<Longrightarrow>
     bh' = bh @ drop (pos f) (content f) \<and> ph' = ph @ drop (pos f) (content f)
     \<and> pos f' = max (pos f) (length (content f)) \<and> content f' = content f"
proof (induction bh ph f rule: hash_loop.induct)
  case (1 bh ph f)
  obtain res f1 where rd: "read 4096 f = (res, f1)" by (cases "read 4096 f")
  show ?case
  proof (cases res)
    case (Inl e)
    with rd "1.prems" show ?thesis by (subst (asm) hash_loop.simps) simp
  next
    case (Inr data)
    note facts = read_Inr [OF rd [unfolded Inr]]
    show ?thesis
    proof (cases "data = []")
      case True
      with rd Inr "1.prems" have eq: "bh' = bh" "ph' = ph" "f' = f1"
        by (subst (asm) hash_loop.simps, simp)+
      from True facts have "drop (pos f) (content f) = []" by simp
      with eq facts True show ?thesis by (simp add: max_def)
    next
      case False
      with rd Inr "1.prems"
      have rec: "hash_loop (update bh data) (update ph data) f1 = (Inr (bh', ph'), f')"
        by (subst (asm) hash_loop.simps) simp
      note ih = "1.IH" [OF rd [symmetric] Inr False rec]
      have d: "data @ drop (pos f1) (content f1) = drop (pos f) (content f)"
        using facts take_chunk_drop [of 4096 "pos f" "content f"] by simp
      from False facts have "pos f < length (content f)" by (auto split: if_splits)
      with ih d facts show ?thesis by (auto simp: update_def max_def)
    qed
  qed
qed

lemma hash_loop_no_faults:
  "faults f = [] \<Longrightarrow> \<exists>r f'. hash_loop bh ph f = (Inr r, f') \<and> faults f' = []"
proof (induction bh ph f rule: hash_loop.induct)
  case (1 bh ph f)
  from read_no_faults [OF "1.prems"] obtain data f1
    where rd: "read 4096 f = (Inr data, f1)" and nf: "faults f1 = []" by blast
  show ?case
  proof (cases "data = []")
    case True
    with rd nf show ?thesis by (subst hash_loop.simps) simp
  next
    case False
    from "1.IH" [OF rd [symmetric] refl False nf] rd False
    show ?thesis by (subst hash_loop.simps) simp
  qed
qed

lemma reset_pos [simp]: "pos (snd (reset_file_offset f body)) = pos f"
  by (simp add: reset_file_offset_def seek_def tell_def split: prod.split)

lemma reset_content: "content (snd (reset_file_offset f body)) = content (snd (body f))"
  by (simp add: reset_file_offset_def seek_def tell_def split: prod.split)

lemma iter_loop_content [simp]: "content (snd (iter_loop f)) = content f"
proof (induction f rule: iter_loop.induct)
  case (1 f)
  obtain res f1 where rd: "read 4096 f = (res, f1)" by (cases "read 4096 f")
  have c: "content f1 = content f" using read_content [of 4096 f] rd by simp
  show ?case
  proof (cases res)
    case (Inl e)
    with rd c show ?thesis by (subst iter_loop.simps) simp
  next
    case (Inr data)
    show ?thesis
    proof (cases "data = []")
      case True
      with rd Inr c show ?thesis by (subst iter_loop.simps) simp
    next
      case False
      obtain cs e f2 where it: "iter_loop f1 = ((cs, e), f2)"
        by (cases "iter_loop f1") auto
      from "1.IH" [OF rd [symmetric] Inr False] it have "content f2 = content f1" by simp
      with rd Inr False c it show ?thesis by (subst iter_loop.simps) simp
    qed
  qed
qed

lemma read_contentD: "read n f = (res, f') \<Longrightarrow> content f' = content f"
  using read_content [of n f] by simp

lemma hash_loop_contentD: "hash_loop bh ph f = (res, f') \<Longrightarrow> content f' = content f"
  using hash_loop_content [of bh ph f] by simp

lemma checksum_body_content [simp]: "content (snd (checksum_body po f)) = content f"
  by (cases po)
     (auto simp: checksum_body_def split: prod.splits sum.splits
           dest!: read_contentD hash_loop_contentD)

lemma set_content_length_block:
  "map_option pos (block_file (snd (set_content_length r))) = map_option pos (block_file r)
   \<and> map_option content (block_file (snd (set_content_length r)))
       = map_option content (block_file r)"
  by (cases "block_file r")
     (simp_all add: set_content_length_def reset_file_offset_def seek_def seek_end_def
        tell_def Let_def)

lemma compute_checksum_block:
  "map_option pos (block_file (snd (compute_checksum po r))) = map_option pos (block_file r)
   \<and> map_option content (block_file (snd (compute_checksum po r)))
       = map_option content (block_file r)"
proof (cases "block_file r")
  case None
  then show ?thesis by (simp add: compute_checksum_def)
next
  case (Some f)
  obtain res f' where b: "reset_file_offset f (checksum_body po) = (res, f')"
    by (cases "reset_file_offset f (checksum_body po)")
  have p: "pos f' = pos f" using reset_pos [of f "checksum_body po"] b by simp
  have c: "content f' = content f"
    using reset_content [of f "checksum_body po"] b by simp
  show ?thesis
    using Some b p c
    by (cases res) (auto simp: compute_checksum_def Let_def split: prod.splits)
qed

lemma iter_record_block:
  "map_option pos (block_file (snd (iter_record r))) = map_option pos (block_file r)
   \<and> map_option content (block_file (snd (iter_record r)))
       = map_option content (block_file r)
   \<and> record_fields (snd (iter_record r)) = record_fields r"
proof (cases "block_file r")
  case None
  then show ?thesis by (simp add: iter_record_def)
next
  case (Some f)
  obtain cs e f' where b: "reset_file_offset f iter_loop = ((cs, e), f')"
    by (cases "reset_file_offset f iter_loop") auto
  have p: "pos f' = pos f" using reset_pos [of f iter_loop] b by simp
  have c: "content f' = content f" using reset_content [of f iter_loop] b by simp
  show ?thesis
    using Some b p c by (cases e) (simp_all add: iter_record_def Let_def)
qed

section \<open>Properties of the field container\<close>

lemma normalize_content_length: "normalize_name ''Content-Length'' = ''Content-Length''"
  by (simp add: normalize_name_def NAME_OVERRIDES_def lower_def lower_char_def)

lemma normalize_block_digest: "normalize_name ''WARC-Block-Digest'' = ''WARC-Block-Digest''"
  by (simp add: normalize_name_def NAME_OVERRIDES_def lower_def lower_char_def)

lemma normalize_payload_digest:
  "normalize_name ''WARC-Payload-Digest'' = ''WARC-Payload-Digest''"
  by (simp add: normalize_name_def NAME_OVERRIDES_def lower_def lower_char_def)

lemmas normalize_simps =
  normalize_content_length normalize_block_digest normalize_payload_digest

lemma getitem_setitem:
  "getitem (setitem fs name v) name' =
     (if normalize_name name' = normalize_name name then Some v else getitem fs name')"
  by (simp add: getitem_def setitem_def update_conv')

lemma writes_snoc: "writes (ws @ [(name, v)]) = setitem (writes ws) name v"
  by (simp add: writes_def)

lemma written_names_snoc:
  "written_names (ws @ [(name, v)]) =
     (if normalize_name name \<in> set (written_names ws) then written_names ws
      else written_names ws @ [normalize_name name])"
  by (simp add: written_names_def)

lemma last_written_snoc:
  "last_written (ws @ [(name, v)]) k =
     (if normalize_name name = k then v else last_written ws k)"
  by (simp add: last_written_def)

lemma keys_writes: "map fst (writes ws) = written_names ws"
proof (induction ws rule: rev_induct)
  case Nil
  then show ?case by (simp add: writes_def written_names_def)
next
  case (snoc w ws)
  obtain name v where w: "w = (name, v)" by (cases w)
  show ?case
    unfolding w writes_snoc written_names_snoc setitem_def
    using snoc by (simp add: update_keys image_iff)
qed

lemma map_of_writes:
  "map_of (writes ws) k =
     (if k \<in> set (written_names ws) then Some (last_written ws k) else None)"
proof (induction ws rule: rev_induct)
  case Nil
  then show ?case by (simp add: writes_def written_names_def)
next
  case (snoc w ws)
  obtain name v where w: "w = (name, v)" by (cases w)
  show ?case
    unfolding w writes_snoc written_names_snoc last_written_snoc setitem_def
    using snoc by (simp add: update_conv')
qed

lemma distinct_written_names: "distinct (written_names ws)"
  by (simp add: written_names_def)

lemma alist_by_keys:
  "distinct (map fst al) \<Longrightarrow> al = map (\<lambda>k. (k, the (map_of al k))) (map fst al)"
proof (induction al)
  case Nil
  then show ?case by simp
next
  case (Cons p al)
  obtain k v where p: "p = (k, v)" by (cases p)
  from Cons.prems have nk: "k \<notin> fst ` set al" and d: "distinct (map fst al)"
    by (simp_all add: p)
  have "map (\<lambda>k'. (k', the (map_of (p # al) k'))) (map fst al)
      = map (\<lambda>k'. (k', the (map_of al k'))) (map fst al)"
    using nk by (intro map_cong) (auto simp: p)
  with Cons.IH [OF d] show ?case by (simp add: p)
qed

lemma writes_eq:
  "writes ws = map (\<lambda>name. (name, last_written ws name)) (written_names ws)"
proof -
  have "writes ws = map (\<lambda>k. (k, the (map_of (writes ws) k))) (map fst (writes ws))"
    by (rule alist_by_keys) (simp add: keys_writes distinct_written_names)
  also have "\<dots> = map (\<lambda>name. (name, last_written ws name)) (written_names ws)"
    unfolding keys_writes by (intro map_cong) (simp_all add: map_of_writes)
  finally show ?thesis .
qed

lemma update_absent: "k \<notin> fst ` set al \<Longrightarrow> AList.update k v al = al @ [(k, v)]"
  by (induction al) auto

lemma writes_distinct:
  assumes "distinct (map (\<lambda>(name, v). normalize_name name) ws)"
  shows "writes ws = map (\<lambda>(name, v). (normalize_name name, v)) ws"
  using assms
proof (induction ws rule: rev_induct)
  case Nil
  then show ?case by (simp add: writes_def)
next
  case (snoc w ws)
  obtain name v where w: "w = (name, v)" by (cases w)
  from snoc.prems have d: "distinct (map (\<lambda>(name, v). normalize_name name) ws)"
    and nk: "normalize_name name \<notin> (\<lambda>(name, v). normalize_name name) ` set ws"
    by (simp_all add: w)
  have "normalize_name name \<notin> fst ` set (writes ws)"
    using nk unfolding snoc.IH [OF d] by (auto simp: image_iff)
  then have "AList.update (normalize_name name) v (writes ws)
      = writes ws @ [(normalize_name name, v)]"
    by (rule update_absent)
  then show ?case
    unfolding w writes_snoc setitem_def using snoc.IH [OF d] by simp
qed

lemma lower_overrides:
  "map lower NAME_OVERRIDES =
     [''warc-date'', ''warc-type'', ''warc-record-id'', ''warc-concurrent-to'',
      ''warc-refers-to'', ''content-length'', ''content-type'', ''warc-target-uri'',
      ''warc-block-digest'', ''warc-ip-address'', ''warc-filename'', ''warc-warcinfo-id'',
      ''warc-payload-digest'']"
  by (simp add: NAME_OVERRIDES_def lower_def lower_char_def char_of_def bit_Suc_0_iff)

lemma find_lower:
  "find (\<lambda>ov. lower ov = c) xs = map_option fst (find (\<lambda>p. snd p = c) (zip xs (map lower xs)))"
  by (induction xs) auto

lemma normalize_override:
  assumes "ov \<in> set NAME_OVERRIDES" and "lower name = lower ov"
  shows "normalize_name name = ov"
proof -
  have "\<forall>ov \<in> set NAME_OVERRIDES.
          find (\<lambda>p. snd p = lower ov) (zip NAME_OVERRIDES (map lower NAME_OVERRIDES))
            = Some (ov, lower ov)"
    unfolding lower_overrides
    by (simp add: NAME_OVERRIDES_def lower_def lower_char_def char_of_def bit_Suc_0_iff)
  with assms show ?thesis by (simp add: normalize_name_def find_lower)
qed

section \<open>The checksum pass\<close>

lemma drop_past_chunk:
  "drop (p + length (take n (drop p xs))) xs = drop (p + n) xs"
proof (cases "n \<le> length xs - p")
  case True
  then show ?thesis by (simp add: min_def)
next
  case False
  then show ?thesis by (simp add: min_def)
qed

lemma checksum_body_Inr:
  assumes "checksum_body po f = (Inr (bh, ph, n), f')"
  shows "bh = drop (pos f) (content f) \<and> ph = payload_bytes po f
       \<and> n = max (pos f) (length (content f))"
proof (cases po)
  case None
  with assms obtain g where "hash_loop hashlib_sha1 hashlib_sha1 f = (Inr (bh, ph), g)"
    and "n = tell g"
    by (auto simp: checksum_body_def split: prod.splits sum.splits)
  with hash_loop_Inr [of hashlib_sha1 hashlib_sha1 f bh ph g] None show ?thesis
    by (simp add: hashlib_sha1_def tell_def payload_bytes_def)
next
  case (Some k)
  with assms obtain data f1 g where rd: "read k f = (Inr data, f1)"
    and hl: "hash_loop (update hashlib_sha1 data) hashlib_sha1 f1 = (Inr (bh, ph), g)"
    and n: "n = tell g"
    by (auto simp: checksum_body_def split: prod.splits sum.splits)
  note facts = read_Inr [OF rd]
  note res = hash_loop_Inr [OF hl]
  show ?thesis
  proof (cases "k < 0")
    case True
    with facts res n Some show ?thesis
      by (simp add: hashlib_sha1_def update_def tell_def payload_bytes_def max_def)
  next
    case False
    with facts have d: "data = take (nat k) (drop (pos f) (content f))"
      and p1: "pos f1 = pos f + length data" and c1: "content f1 = content f"
      by simp_all
    have bh: "bh = drop (pos f) (content f)"
      using res d p1 c1 take_chunk_drop [of "nat k" "pos f" "content f"]
      by (simp add: hashlib_sha1_def update_def)
    have ph: "ph = drop (pos f + nat k) (content f)"
      using res d p1 c1 drop_past_chunk [of "pos f" "nat k" "content f"]
      by (simp add: hashlib_sha1_def)
    have "n = max (pos f) (length (content f))"
      using res n d p1 c1 by (auto simp: tell_def max_def min_def)
    with bh ph Some False show ?thesis by (simp add: payload_bytes_def)
  qed
qed

lemma checksum_body_faults:
  assumes "checksum_body po f = (res, f')"
  shows "\<exists>fl. f' = f\<lparr>pos := pos f', faults := fl\<rparr>"
proof -
  have "content f' = content f" using checksum_body_content [of po f] assms by simp
  then have "f' = f\<lparr>pos := pos f', faults := faults f'\<rparr>" by simp
  then show ?thesis ..
qed

lemma checksum_body_no_faults:
  assumes "faults f = []"
  shows "\<exists>res f'. checksum_body po f = (Inr res, f') \<and> faults f' = []"
proof (cases po)
  case None
  from hash_loop_no_faults [OF assms, of hashlib_sha1 hashlib_sha1] None show ?thesis
    by (auto simp: checksum_body_def)
next
  case (Some k)
  from read_no_faults [OF assms, of k] obtain data f1
    where rd: "read k f = (Inr data, f1)" and nf: "faults f1 = []" by blast
  from hash_loop_no_faults [OF nf, of "update hashlib_sha1 data" hashlib_sha1] rd Some
  show ?thesis by (auto simp: checksum_body_def)
qed


lemma compute_checksum_cases:
  assumes "block_file r = Some f"
  shows "(\<exists>e fl. compute_checksum po r = (Some e, r\<lparr>block_file := Some (f\<lparr>faults := fl\<rparr>)\<rparr>))
       \<or> (\<exists>fl. compute_checksum po r =
              (None, r\<lparr>record_fields := checksum_fields po f (record_fields r),
                        block_file := Some (f\<lparr>faults := fl\<rparr>)\<rparr>))"
proof -
  obtain res g where b: "checksum_body po f = (res, g)" by (cases "checksum_body po f")
  from checksum_body_faults [OF b] obtain fl where g: "g = f\<lparr>pos := pos g, faults := fl\<rparr>" ..
  have sk: "seek (tell f) g = f\<lparr>faults := fl\<rparr>"
    by (subst g) (simp add: seek_def tell_def)
  have rs: "reset_file_offset f (checksum_body po) = (res, f\<lparr>faults := fl\<rparr>)"
    using b sk by (simp add: reset_file_offset_def)
  show ?thesis
  proof (cases res)
    case (Inl e)
    with assms rs show ?thesis by (auto simp: compute_checksum_def)
  next
    case (Inr t)
    obtain bh ph n where t: "t = (bh, ph, n)" by (cases t)
    from checksum_body_Inr [OF b [unfolded Inr t]]
    have "bh = drop (pos f) (content f)" "ph = payload_bytes po f"
      "n = max (pos f) (length (content f))" by simp_all
    with assms rs Inr t show ?thesis
      by (auto simp: compute_checksum_def checksum_fields_def digest_def Let_def)
  qed
qed

lemma compute_checksum_no_faults:
  assumes "block_file r = Some f" and "faults f = []"
  shows "compute_checksum po r =
           (None, r\<lparr>record_fields := checksum_fields po f (record_fields r)\<rparr>)"
proof -
  from checksum_body_no_faults [OF assms(2), of po] obtain res g
    where b: "checksum_body po f = (Inr res, g)" and nf: "faults g = []" by blast
  obtain bh ph n where t: "res = (bh, ph, n)" by (cases res)
  have "content g = content f" using checksum_body_content [of po f] b by simp
  with nf assms(2) have sk: "seek (tell f) g = f" by (simp add: seek_def tell_def)
  have rs: "reset_file_offset f (checksum_body po) = (Inr (bh, ph, n), f)"
    using b sk t by (simp add: reset_file_offset_def)
  from checksum_body_Inr [OF b [unfolded t]]
  have "bh = drop (pos f) (content f)" "ph = payload_bytes po f"
    "n = max (pos f) (length (content f))" by simp_all
  moreover have "r\<lparr>block_file := Some f\<rparr> = r" using assms(1) by simp
  ultimately show ?thesis
    using assms(1) rs
    by (simp add: compute_checksum_def checksum_fields_def digest_def Let_def)
qed

lemma payload_bytes_faults [simp]:
  "payload_bytes po (f\<lparr>faults := fl\<rparr>) = payload_bytes po f"
  by (simp add: payload_bytes_def split: option.split)

lemma checksum_fields_faults [simp]:
  "checksum_fields po (f\<lparr>faults := fl\<rparr>) fs = checksum_fields po f fs"
  by (simp add: checksum_fields_def cong: if_cong)

lemma setitem_triv: "getitem fs name = Some v \<Longrightarrow> setitem fs name v = fs"
  by (simp add: getitem_def setitem_def update_triv)

lemma setitem_setitem [simp]: "setitem (setitem fs name v) name v' = setitem fs name v'"
  by (simp add: setitem_def)

lemma checksum_fields_idem:
  "checksum_fields po f (checksum_fields po f fs) = checksum_fields po f fs"
proof -
  let ?fs = "checksum_fields po f fs"
  let ?b = "digest_str (sha1 (drop (pos f) (content f)))"
  let ?p = "digest_str (sha1 (payload_bytes po f))"
  let ?n = "str (max (pos f) (length (content f)))"
  have b: "setitem ?fs ''WARC-Block-Digest'' ?b = ?fs"
    by (rule setitem_triv)
       (simp add: checksum_fields_def Let_def getitem_setitem normalize_simps)
  have p: "po \<noteq> None \<Longrightarrow> setitem ?fs ''WARC-Payload-Digest'' ?p = ?fs"
    by (rule setitem_triv)
       (simp add: checksum_fields_def Let_def getitem_setitem normalize_simps)
  have n: "setitem ?fs ''Content-Length'' ?n = ?fs"
    by (rule setitem_triv)
       (simp add: checksum_fields_def Let_def getitem_setitem normalize_simps)
  show ?thesis
  proof (cases "po = None")
    case True
    then have "checksum_fields po f ?fs
        = setitem (setitem ?fs ''WARC-Block-Digest'' ?b) ''Content-Length'' ?n"
      by (simp add: checksum_fields_def Let_def)
    with b n show ?thesis by simp
  next
    case False
    then have "checksum_fields po f ?fs
        = setitem (setitem (setitem ?fs ''WARC-Block-Digest'' ?b)
            ''WARC-Payload-Digest'' ?p) ''Content-Length'' ?n"
      by (simp add: checksum_fields_def Let_def)
    with b p [OF False] n show ?thesis by simp
  qed
qed

lemma getitem_checksum_fields:
  "getitem (checksum_fields po f fs) ''WARC-Block-Digest''
     = Some (digest_str (sha1 (drop (pos f) (content f))))
   \<and> getitem (checksum_fields po f fs) ''WARC-Payload-Digest''
     = (if po \<noteq> None then Some (digest_str (sha1 (payload_bytes po f)))
        else getitem fs ''WARC-Payload-Digest'')
   \<and> getitem (checksum_fields po f fs) ''Content-Length''
     = Some (str (max (pos f) (length (content f))))"
  by (simp add: checksum_fields_def Let_def getitem_setitem normalize_simps)

lemma str_0: "str 0 = ''0''"
  by (subst str.simps) (simp add: digit_char_def)

lemma iter_loop_no_faults:
  "faults f = [] \<Longrightarrow>
     \<exists>cs f'. iter_loop f = ((cs, None), f') \<and> concat cs = drop (pos f) (content f)
       \<and> faults f' = [] \<and> content f' = content f"
proof (induction f rule: iter_loop.induct)
  case (1 f)
  from read_no_faults [OF "1.prems"] obtain data f1
    where rd: "read 4096 f = (Inr data, f1)" and nf: "faults f1 = []" by blast
  note facts = read_Inr [OF rd]
  show ?case
  proof (cases "data = []")
    case True
    with facts have "drop (pos f) (content f) = []" by simp
    with rd nf True facts show ?thesis by (subst iter_loop.simps) simp
  next
    case False
    from "1.IH" [OF rd [symmetric] refl False nf] obtain cs f2
      where it: "iter_loop f1 = ((cs, None), f2)"
        and cc: "concat cs = drop (pos f1) (content f1)"
        and f2: "faults f2 = []" "content f2 = content f1" by blast
    have "data @ drop (pos f1) (content f1) = drop (pos f) (content f)"
      using facts take_chunk_drop [of 4096 "pos f" "content f"] by simp
    with rd False it cc f2 facts show ?thesis by (subst iter_loop.simps) simp
  qed
qed

lemma iter_record_no_faults:
  assumes "block_file r = Some f" and "faults f = []"
  shows "\<exists>cs. iter_record r =
           (([encode VERSION, encode CRLF, fields_bytes (record_fields r), encode CRLF]
               @ cs @ [encode (CRLF @ CRLF)], None), r)
         \<and> concat cs = drop (pos f) (content f)"
proof -
  from iter_loop_no_faults [OF assms(2)] obtain cs g
    where it: "iter_loop f = ((cs, None), g)" and cc: "concat cs = drop (pos f) (content f)"
      and g: "faults g = []" "content g = content f" by blast
  from g assms(2) have sk: "seek (tell f) g = f" by (simp add: seek_def tell_def)
  have "reset_file_offset f iter_loop = ((cs, None), f)"
    using it sk by (simp add: reset_file_offset_def)
  moreover have "r\<lparr>block_file := Some f\<rparr> = r" using assms(1) by simp
  ultimately have "iter_record r =
           (([encode VERSION, encode CRLF, fields_bytes (record_fields r), encode CRLF]
               @ cs @ [encode (CRLF @ CRLF)], None), r)"
    using assms(1) by (simp add: iter_record_def Let_def)
  with cc show ?thesis by blast
qed

section \<open>Evaluating SHA-1 and Base32\<close>

lemma replicate_num: "replicate (numeral k) x = x # replicate (pred_numeral k) x"
  by (simp add: numeral_eq_Suc)

lemma chunks_of_num:
  "chunks_of (numeral k) (x # xs) =
     take (numeral k) (x # xs) # chunks_of (numeral k) (drop (numeral k) (x # xs))"
  by simp

lemma chunks_of_block: "length blk = 64 \<Longrightarrow> chunks_of 64 blk = [blk]"
  by (cases blk) simp_all

lemma upt_0_8: "[0..<8] = [0, 1, 2, 3, 4, 5, 6, 7]"
  by (simp add: upt_conv_Cons)

lemma upt_0_20: "[0..<20] = 0 # 1 # [2..<20]"
  by (simp add: upt_conv_Cons)

lemma upt_0_80: "[0..<80] = [0..<20] @ [20..<40] @ [40..<60] @ [60..<80]"
  using upt_add_eq_append [of 0 20 60] upt_add_eq_append [of 20 20 40]
    upt_add_eq_append [of 40 20 20]
  by simp

lemma sha1_pad_empty: "sha1_pad [] =
    [0x80, 0x0, 0x0, 0x0, 0x0, 0x0, 0x0, 0x0, 0x0, 0x0, 0x0, 0x0, 0x0, 0x0, 0x0, 0x0,
     0x0, 0x0, 0x0, 0x0, 0x0, 0x0, 0x0, 0x0, 0x0, 0x0, 0x0, 0x0, 0x0, 0x0, 0x0, 0x0,
     0x0, 0x0, 0x0, 0x0, 0x0, 0x0, 0x0, 0x0, 0x0, 0x0, 0x0, 0x0, 0x0, 0x0, 0x0, 0x0,
     0x0, 0x0, 0x0, 0x0, 0x0, 0x0, 0x0, 0x0, 0x0, 0x0, 0x0, 0x0, 0x0, 0x0, 0x0, 0x0]"
  by (simp add: sha1_pad_def u64_bytes_def replicate_num upt_0_8)

lemma sha1_schedule_empty: "sha1_schedule
    [0x80, 0x0, 0x0, 0x0, 0x0, 0x0, 0x0, 0x0, 0x0, 0x0, 0x0, 0x0, 0x0, 0x0, 0x0, 0x0,
     0x0, 0x0, 0x0, 0x0, 0x0, 0x0, 0x0, 0x0, 0x0, 0x0, 0x0, 0x0, 0x0, 0x0, 0x0, 0x0,
     0x0, 0x0, 0x0, 0x0, 0x0, 0x0, 0x0, 0x0, 0x0, 0x0, 0x0, 0x0, 0x0, 0x0, 0x0, 0x0,
     0x0, 0x0, 0x0, 0x0, 0x0, 0x0, 0x0, 0x0, 0x0, 0x0, 0x0, 0x0, 0x0, 0x0, 0x0, 0x0] =
       [0x80000000, 0x0, 0x0, 0x0, 0x0, 0x0, 0x0, 0x0,
        0x0, 0x0, 0x0, 0x0, 0x0, 0x0, 0x0, 0x0,
        0x1, 0x0, 0x0, 0x2, 0x0, 0x0, 0x4, 0x0,
        0x2, 0x8, 0x0, 0x0, 0x10, 0x0, 0xA, 0x20,
        0x6, 0x0, 0x40, 0x8, 0x28, 0x80, 0x8, 0x0,
        0x108, 0x0, 0xA0, 0x200, 0x64, 0x0, 0x408, 0x88,
        0x29C, 0x800, 0x80, 0x28, 0x1088, 0x0, 0xA40, 0x2000,
        0x668, 0x80, 0x4088, 0x880, 0x28C8, 0x8000, 0x8A8, 0x80,
        0x108E8, 0x0, 0xA000, 0x20080, 0x6400, 0x0, 0x40800, 0x8800,
        0x29C10, 0x80000, 0x8080, 0x2820, 0x1088C0, 0x0, 0xA40C0, 0x200080]"
  by (simp add: sha1_schedule_def sha1_extend_def rotl_def be32_def chunks_of_num
        del: chunks_of.simps(2))

lemma sha1_rounds1_empty: "foldl (sha1_round
       [0x80000000, 0x0, 0x0, 0x0, 0x0, 0x0, 0x0, 0x0,
        0x0, 0x0, 0x0, 0x0, 0x0, 0x0, 0x0, 0x0,
        0x1, 0x0, 0x0, 0x2, 0x0, 0x0, 0x4, 0x0,
        0x2, 0x8, 0x0, 0x0, 0x10, 0x0, 0xA, 0x20,
        0x6, 0x0, 0x40, 0x8, 0x28, 0x80, 0x8, 0x0,
        0x108, 0x0, 0xA0, 0x200, 0x64, 0x0, 0x408, 0x88,
        0x29C, 0x800, 0x80, 0x28, 0x1088, 0x0, 0xA40, 0x2000,
        0x668, 0x80, 0x4088, 0x880, 0x28C8, 0x8000, 0x8A8, 0x80,
        0x108E8, 0x0, 0xA000, 0x20080, 0x6400, 0x0, 0x40800, 0x8800,
        0x29C10, 0x80000, 0x8080, 0x2820, 0x1088C0, 0x0, 0xA40C0, 0x200080])
     sha1_init [0..<20] = (0xE758E8DA, 0xB3088DD, 0x8A2A5483, 0xC1AFE45C, 0xF63F5951)"
  by (simp add: upt_0_20 sha1_init_def sha1_f_def sha1_k_def rotl_def)

lemma sha1_rounds2_empty: "foldl (sha1_round
       [0x80000000, 0x0, 0x0, 0x0, 0x0, 0x0, 0x0, 0x0,
        0x0, 0x0, 0x0, 0x0, 0x0, 0x0, 0x0, 0x0,
        0x1, 0x0, 0x0, 0x2, 0x0, 0x0, 0x4, 0x0,
        0x2, 0x8, 0x0, 0x0, 0x10, 0x0, 0xA, 0x20,
        0x6, 0x0, 0x40, 0x8, 0x28, 0x80, 0x8, 0x0,
        0x108, 0x0, 0xA0, 0x200, 0x64, 0x0, 0x408, 0x88,
        0x29C, 0x800, 0x80, 0x28, 0x1088, 0x0, 0xA40, 0x2000,
        0x668, 0x80, 0x4088, 0x880, 0x28C8, 0x8000, 0x8A8, 0x80,
        0x108E8, 0x0, 0xA000, 0x20080, 0x6400, 0x0, 0x40800, 0x8800,
        0x29C10, 0x80000, 0x8080, 0x2820, 0x1088C0, 0x0, 0xA40C0, 0x200080])
     (0xE758E8DA, 0xB3088DD, 0x8A2A5483, 0xC1AFE45C, 0xF63F5951) [20..<40] = (0x9BDBDD71, 0x62273351, 0xEC805E22, 0x413C1D9A, 0x2AEEAE62)"
  by (simp add: upt_0_20 sha1_init_def sha1_f_def sha1_k_def rotl_def)

lemma sha1_rounds3_empty: "foldl (sha1_round
       [0x80000000, 0x0, 0x0, 0x0, 0x0, 0x0, 0x0, 0x0,
        0x0, 0x0, 0x0, 0x0, 0x0, 0x0, 0x0, 0x0,
        0x1, 0x0, 0x0, 0x2, 0x0, 0x0, 0x4, 0x0,
        0x2, 0x8, 0x0, 0x0, 0x10, 0x0, 0xA, 0x20,
        0x6, 0x0, 0x40, 0x8, 0x28, 0x80, 0x8, 0x0,
        0x108, 0x0, 0xA0, 0x200, 0x64, 0x0, 0x408, 0x88,
        0x29C, 0x800, 0x80, 0x28, 0x1088, 0x0, 0xA40, 0x2000,
        0x668, 0x80, 0x4088, 0x880, 0x28C8, 0x8000, 0x8A8, 0x80,
        0x108E8, 0x0, 0xA000, 0x20080, 0x6400, 0x0, 0x40800, 0x8800,
        0x29C10, 0x80000, 0x8080, 0x2820, 0x1088C0, 0x0, 0xA40C0, 0x200080])
     (0x9BDBDD71, 0x62273351, 0xEC805E22, 0x413C1D9A, 0x2AEEAE62) [40..<60] = (0x9B9D2913, 0x982BCBCA, 0xB86BEAC8, 0xC5A3382E, 0xAF9292FA)"
  by (simp add: upt_0_20 sha1_init_def sha1_f_def sha1_k_def rotl_def)

lemma sha1_rounds4_empty: "foldl (sha1_round
       [0x80000000, 0x0, 0x0, 0x0, 0x0, 0x0, 0x0, 0x0,
        0x0, 0x0, 0x0, 0x0, 0x0, 0x0, 0x0, 0x0,
        0x1, 0x0, 0x0, 0x2, 0x0, 0x0, 0x4, 0x0,
        0x2, 0x8, 0x0, 0x0, 0x10, 0x0, 0xA, 0x20,
        0x6, 0x0, 0x40, 0x8, 0x28, 0x80, 0x8, 0x0,
        0x108, 0x0, 0xA0, 0x200, 0x64, 0x0, 0x408, 0x88,
        0x29C, 0x800, 0x80, 0x28, 0x1088, 0x0, 0xA40, 0x2000,
        0x668, 0x80, 0x4088, 0x880, 0x28C8, 0x8000, 0x8A8, 0x80,
        0x108E8, 0x0, 0xA000, 0x20080, 0x6400, 0x0, 0x40800, 0x8800,
        0x29C10, 0x80000, 0x8080, 0x2820, 0x1088C0, 0x0, 0xA40C0, 0x200080])
     (0x9B9D2913, 0x982BCBCA, 0xB86BEAC8, 0xC5A3382E, 0xAF9292FA) [60..<80] = (0x72F480ED, 0x6E9D9F84, 0x999AE2F1, 0x852DC41A, 0xEC052519)"
  by (simp add: upt_0_20 sha1_init_def sha1_f_def sha1_k_def rotl_def)

lemma sha1_empty: "sha1 [] = [0xDA, 0x39, 0xA3, 0xEE, 0x5E, 0x6B, 0x4B, 0xD, 0x32, 0x55,
     0xBF, 0xEF, 0x95, 0x60, 0x18, 0x90, 0xAF, 0xD8, 0x7, 0x9]"
proof -
  have "foldl sha1_block sha1_init (chunks_of 64 (sha1_pad []))
          = sha1_block sha1_init (sha1_pad [])"
    by (simp add: sha1_pad_empty)
  also have "\<dots> = sha1_add sha1_init
      (foldl (sha1_round (sha1_schedule (sha1_pad []))) sha1_init [0..<80])"
    by (simp only: sha1_block_def)
  finally show ?thesis
    by (simp only: sha1_def sha1_pad_empty sha1_schedule_empty upt_0_80 foldl_append
          sha1_rounds1_empty sha1_rounds2_empty sha1_rounds3_empty sha1_rounds4_empty)
       (simp add: sha1_init_def u32_bytes_def)
qed

lemma digest_str_empty: "digest_str [0xDA, 0x39, 0xA3, 0xEE, 0x5E, 0x6B, 0x4B, 0xD, 0x32, 0x55,
     0xBF, 0xEF, 0x95, 0x60, 0x18, 0x90, 0xAF, 0xD8, 0x7, 0x9] = ''sha1:3I42H3S6NNFQ2MSVX7XZKYAYSCX5QBYJ''"
  by (simp add: digest_str_def b32encode_def b32group_def b32alphabet_def from_bytes_def
        b32pad_def chunks_of_num upt_0_8 Let_def del: chunks_of.simps(2))

lemma sha1_pad_a: "sha1_pad [0x61] =
    [0x61, 0x80, 0x0, 0x0, 0x0, 0x0, 0x0, 0x0, 0x0, 0x0, 0x0, 0x0, 0x0, 0x0, 0x0, 0x0,
     0x0, 0x0, 0x0, 0x0, 0x0, 0x0, 0x0, 0x0, 0x0, 0x0, 0x0, 0x0, 0x0, 0x0, 0x0, 0x0,
     0x0, 0x0, 0x0, 0x0, 0x0, 0x0, 0x0, 0x0, 0x0, 0x0, 0x0, 0x0, 0x0, 0x0, 0x0, 0x0,
     0x0, 0x0, 0x0, 0x0, 0x0, 0x0, 0x0, 0x0, 0x0, 0x0, 0x0, 0x0, 0x0, 0x0, 0x0, 0x8]"
  by (simp add: sha1_pad_def u64_bytes_def replicate_num upt_0_8)

lemma sha1_schedule_a: "sha1_schedule
    [0x61, 0x80, 0x0, 0x0, 0x0, 0x0, 0x0, 0x0, 0x0, 0x0, 0x0, 0x0, 0x0, 0x0, 0x0, 0x0,
     0x0, 0x0, 0x0, 0x0, 0x0, 0x0, 0x0, 0x0, 0x0, 0x0, 0x0, 0x0, 0x0, 0x0, 0x0, 0x0,
     0x0, 0x0, 0x0, 0x0, 0x0, 0x0, 0x0, 0x0, 0x0, 0x0, 0x0, 0x0, 0x0, 0x0, 0x0, 0x0,
     0x0, 0x0, 0x0, 0x0, 0x0, 0x0, 0x0, 0x0, 0x0, 0x0, 0x0, 0x0, 0x0, 0x0, 0x0, 0x8] =
       [0x61800000, 0x0, 0x0, 0x0, 0x0, 0x0, 0x0, 0x0,
        0x0, 0x0, 0x0, 0x0, 0x0, 0x0, 0x0, 0x8,
        0xC3000000, 0x0, 0x10, 0x86000001, 0x0, 0x20, 0xC000003, 0x10,
        0x86000041, 0x18000006, 0x0, 0x80, 0x3000000C, 0x50, 0x9E000107, 0x60000028,
        0x8A000002, 0x200, 0xC0000070, 0x18000146, 0x7800041E, 0x80000021, 0x18000006, 0x840,
        0x180000C5, 0x500, 0xE0001079, 0x2A6, 0xAC00002B, 0x2040, 0x1800074A, 0x98001487,
        0xA40041EE, 0x218, 0x80000121, 0x7800845E, 0x98000C57, 0x5200, 0xC00107AE, 0x2B20,
        0xB80006A4, 0x80020421, 0x980074A7, 0x80014039, 0x58041E2F, 0x24C0, 0xF8000267, 0x80084721,
        0x3800C557, 0x50000, 0x107DE0, 0x8002A661, 0x2BAC, 0x204000, 0x74A18, 0x148718,
        0x3041EEA8, 0x21C00, 0x800120E1, 0x60845860, 0x400C57C9, 0x520600, 0x4107AA91, 0x802B2FE1]"
  by (simp add: sha1_schedule_def sha1_extend_def rotl_def be32_def chunks_of_num
        del: chunks_of.simps(2))

lemma sha1_rounds1_a: "foldl (sha1_round
       [0x61800000, 0x0, 0x0, 0x0, 0x0, 0x0, 0x0, 0x0,
        0x0, 0x0, 0x0, 0x0, 0x0, 0x0, 0x0, 0x8,
        0xC3000000, 0x0, 0x10, 0x86000001, 0x0, 0x20, 0xC000003, 0x10,
        0x86000041, 0x18000006, 0x0, 0x80, 0x3000000C, 0x50, 0x9E000107, 0x60000028,
        0x8A000002, 0x200, 0xC0000070, 0x18000146, 0x7800041E, 0x80000021, 0x18000006, 0x840,
        0x180000C5, 0x500, 0xE0001079, 0x2A6, 0xAC00002B, 0x2040, 0x1800074A, 0x98001487,
        0xA40041EE, 0x218, 0x80000121, 0x7800845E, 0x98000C57, 0x5200, 0xC00107AE, 0x2B20,
        0xB80006A4, 0x80020421, 0x980074A7, 0x80014039, 0x58041E2F, 0x24C0, 0xF8000267, 0x80084721,
        0x3800C557, 0x50000, 0x107DE0, 0x8002A661, 0x2BAC, 0x204000, 0x74A18, 0x148718,
        0x3041EEA8, 0x21C00, 0x800120E1, 0x60845860, 0x400C57C9, 0x520600, 0x4107AA91, 0x802B2FE1])
     sha1_init [0..<20] = (0x3AD1E596, 0xAB5979F5, 0x5BFFAFF, 0xD7EB6C02, 0xCBB2BA41)"
  by (simp add: upt_0_20 sha1_init_def sha1_f_def sha1_k_def rotl_def)

lemma sha1_rounds2_a: "foldl (sha1_round
       [0x61800000, 0x0, 0x0, 0x0, 0x0, 0x0, 0x0, 0x0,
        0x0, 0x0, 0x0, 0x0, 0x0, 0x0, 0x0, 0x8,
        0xC3000000, 0x0, 0x10, 0x86000001, 0x0, 0x20, 0xC000003, 0x10,
        0x86000041, 0x18000006, 0x0, 0x80, 0x3000000C, 0x50, 0x9E000107, 0x60000028,
        0x8A000002, 0x200, 0xC0000070, 0x18000146, 0x7800041E, 0x80000021, 0x18000006, 0x840,
        0x180000C5, 0x500, 0xE0001079, 0x2A6, 0xAC00002B, 0x2040, 0x1800074A, 0x98001487,
        0xA40041EE, 0x218, 0x80000121, 0x7800845E, 0x98000C57, 0x5200, 0xC00107AE, 0x2B20,
        0xB80006A4, 0x80020421, 0x980074A7, 0x80014039, 0x58041E2F, 0x24C0, 0xF8000267, 0x80084721,
        0x3800C557, 0x50000, 0x107DE0, 0x8002A661, 0x2BAC, 0x204000, 0x74A18, 0x148718,
        0x3041EEA8, 0x21C00, 0x800120E1, 0x60845860, 0x400C57C9, 0x520600, 0x4107AA91, 0x802B2FE1])
     (0x3AD1E596, 0xAB5979F5, 0x5BFFAFF, 0xD7EB6C02, 0xCBB2BA41) [20..<40] = (0xAC15A69D, 0xA3B72B37, 0x508A16EC, 0xFF02367C, 0xC97A575A)"
  by (simp add: upt_0_20 sha1_init_def sha1_f_def sha1_k_def rotl_def)

lemma sha1_rounds3_a: "foldl (sha1_round
       [0x61800000, 0x0, 0x0, 0x0, 0x0, 0x0, 0x0, 0x0,
        0x0, 0x0, 0x0, 0x0, 0x0, 0x0, 0x0, 0x8,
        0xC3000000, 0x0, 0x10, 0x86000001, 0x0, 0x20, 0xC000003, 0x10,
        0x86000041, 0x18000006, 0x0, 0x80, 0x3000000C, 0x50, 0x9E000107, 0x60000028,
        0x8A000002, 0x200, 0xC0000070, 0x18000146, 0x7800041E, 0x80000021, 0x18000006, 0x840,
        0x180000C5, 0x500, 0xE0001079, 0x2A6, 0xAC00002B, 0x2040, 0x1800074A, 0x98001487,
        0xA40041EE, 0x218, 0x80000121, 0x7800845E, 0x98000C57, 0x5200, 0xC00107AE, 0x2B20,
        0xB80006A4, 0x80020421, 0x980074A7, 0x80014039, 0x58041E2F, 0x24C0, 0xF8000267, 0x80084721,
        0x3800C557, 0x50000, 0x107DE0, 0x8002A661, 0x2BAC, 0x204000, 0x74A18, 0x148718,
        0x3041EEA8, 0x21C00, 0x800120E1, 0x60845860, 0x400C57C9, 0x520600, 0x4107AA91, 0x802B2FE1])
     (0xAC15A69D, 0xA3B72B37, 0x508A16EC, 0xFF02367C, 0xC97A575A) [40..<60] = (0xC682F53F, 0x80C84724, 0x1A0D1B08, 0xE0648CCD, 0xABD3DCDF)"
  by (simp add: upt_0_20 sha1_init_def sha1_f_def sha1_k_def rotl_def)

lemma sha1_rounds4_a: "foldl (sha1_round
       [0x61800000, 0x0, 0x0, 0x0, 0x0, 0x0, 0x0, 0x0,
        0x0, 0x0, 0x0, 0x0, 0x0, 0x0, 0x0, 0x8,
        0xC3000000, 0x0, 0x10, 0x86000001, 0x0, 0x20, 0xC000003, 0x10,
        0x86000041, 0x18000006, 0x0, 0x80, 0x3000000C, 0x50, 0x9E000107, 0x60000028,
        0x8A000002, 0x200, 0xC0000070, 0x18000146, 0x7800041E, 0x80000021, 0x18000006, 0x840,
        0x180000C5, 0x500, 0xE0001079, 0x2A6, 0xAC00002B, 0x2040, 0x1800074A, 0x98001487,
        0xA40041EE, 0x218, 0x80000121, 0x7800845E, 0x98000C57, 0x5200, 0xC00107AE, 0x2B20,
        0xB80006A4, 0x80020421, 0x980074A7, 0x80014039, 0x58041E2F, 0x24C0, 0xF8000267, 0x80084721,
        0x3800C557, 0x50000, 0x107DE0, 0x8002A661, 0x2BAC, 0x204000, 0x74A18, 0x148718,
        0x3041EEA8, 0x21C00, 0x800120E1, 0x60845860, 0x400C57C9, 0x520600, 0x4107AA91, 0x802B2FE1])
     (0xC682F53F, 0x80C84724, 0x1A0D1B08, 0xE0648CCD, 0xABD3DCDF) [60..<80] = (0x1FB2C136, 0xAD7FC73, 0x48A240DE, 0xA9B89674, 0x73A385C8)"
  by (simp add: upt_0_20 sha1_init_def sha1_f_def sha1_k_def rotl_def)

lemma sha1_a: "sha1 [0x61] = [0x86, 0xF7, 0xE4, 0x37, 0xFA, 0xA5, 0xA7, 0xFC, 0xE1, 0x5D,
     0x1D, 0xDC, 0xB9, 0xEA, 0xEA, 0xEA, 0x37, 0x76, 0x67, 0xB8]"
proof -
  have "foldl sha1_block sha1_init (chunks_of 64 (sha1_pad [0x61]))
          = sha1_block sha1_init (sha1_pad [0x61])"
    by (simp add: sha1_pad_a)
  also have "\<dots> = sha1_add sha1_init
      (foldl (sha1_round (sha1_schedule (sha1_pad [0x61]))) sha1_init [0..<80])"
    by (simp only: sha1_block_def)
  finally show ?thesis
    by (simp only: sha1_def sha1_pad_a sha1_schedule_a upt_0_80 foldl_append
          sha1_rounds1_a sha1_rounds2_a sha1_rounds3_a sha1_rounds4_a)
       (simp add: sha1_init_def u32_bytes_def)
qed

lemma digest_str_a: "digest_str [0x86, 0xF7, 0xE4, 0x37, 0xFA, 0xA5, 0xA7, 0xFC, 0xE1, 0x5D,
     0x1D, 0xDC, 0xB9, 0xEA, 0xEA, 0xEA, 0x37, 0x76, 0x67, 0xB8] = ''sha1:Q336IN72UWT7ZYK5DXOLT2XK5I3XMZ5Y''"
  by (simp add: digest_str_def b32encode_def b32group_def b32alphabet_def from_bytes_def
        b32pad_def chunks_of_num upt_0_8 Let_def del: chunks_of.simps(2))

text \<open>The examples of FIPS 180: one block and two blocks.\<close>

lemma sha1_pad_abc: "sha1_pad
    [0x61, 0x62, 0x63] =
    [0x61, 0x62, 0x63, 0x80, 0x0, 0x0, 0x0, 0x0, 0x0, 0x0, 0x0, 0x0, 0x0, 0x0, 0x0, 0x0,
    0x0, 0x0, 0x0, 0x0, 0x0, 0x0, 0x0, 0x0, 0x0, 0x0, 0x0, 0x0, 0x0, 0x0, 0x0, 0x0,
    0x0, 0x0, 0x0, 0x0, 0x0, 0x0, 0x0, 0x0, 0x0, 0x0, 0x0, 0x0, 0x0, 0x0, 0x0, 0x0,
    0x0, 0x0, 0x0, 0x0, 0x0, 0x0, 0x0, 0x0, 0x0, 0x0, 0x0, 0x0, 0x0, 0x0, 0x0, 0x18]"
  by (simp add: sha1_pad_def u64_bytes_def replicate_num upt_0_8)

lemma sha1_schedule_abc_1: "sha1_schedule
    [0x61, 0x62, 0x63, 0x80, 0x0, 0x0, 0x0, 0x0, 0x0, 0x0, 0x0, 0x0, 0x0, 0x0, 0x0, 0x0,
    0x0, 0x0, 0x0, 0x0, 0x0, 0x0, 0x0, 0x0, 0x0, 0x0, 0x0, 0x0, 0x0, 0x0, 0x0, 0x0,
    0x0, 0x0, 0x0, 0x0, 0x0, 0x0, 0x0, 0x0, 0x0, 0x0, 0x0, 0x0, 0x0, 0x0, 0x0, 0x0,
    0x0, 0x0, 0x0, 0x0, 0x0, 0x0, 0x0, 0x0, 0x0, 0x0, 0x0, 0x0, 0x0, 0x0, 0x0, 0x18] =
       [0x61626380, 0x0, 0x0, 0x0, 0x0, 0x0, 0x0, 0x0,
        0x0, 0x0, 0x0, 0x0, 0x0, 0x0, 0x0, 0x18,
        0xC2C4C700, 0x0, 0x30, 0x85898E01, 0x0, 0x60, 0xB131C03, 0x30,
        0x85898EC1, 0x16263806, 0x0, 0x180, 0x2C4C700C, 0xF0, 0x93AFB507, 0x5898E048,
        0x8E9A9202, 0x600, 0xB131C0F0, 0x16263BC6, 0x4EBED41E, 0x626380A1, 0x16263806, 0x18C0,
        0xD2E138C4, 0xF00, 0x3AFB5079, 0x898E04E5, 0xE2BA3C2B, 0x60C0, 0x53A37CD, 0x74458547,
        0xDA9415ED, 0x26380A16, 0x626383A1, 0x4EBF54DE, 0x3835B44B, 0xF600, 0x1E84C7A3, 0x98E04D98,
        0x651D16A0, 0x62658CA1, 0x458544D6, 0x44584CB7, 0x7BA06619, 0x6380AEA2, 0xAE55269, 0x627B49A1,
        0x7CD45C9D, 0xF0000, 0xFB50753A, 0xEC6765E8, 0xBA3C2BE2, 0x60C000, 0x3A37CD05, 0x458546F4,
        0xB8599DD6, 0x380A1A26, 0x1E02203, 0xE7CC3456, 0xE6E60B69, 0xF60A00, 0x5795EF4F, 0x822E0879]"
  by (simp add: sha1_schedule_def sha1_extend_def rotl_def be32_def chunks_of_num
        del: chunks_of.simps(2))

lemma sha1_rounds1_abc_1: "foldl (sha1_round
       [0x61626380, 0x0, 0x0, 0x0, 0x0, 0x0, 0x0, 0x0,
        0x0, 0x0, 0x0, 0x0, 0x0, 0x0, 0x0, 0x18,
        0xC2C4C700, 0x0, 0x30, 0x85898E01, 0x0, 0x60, 0xB131C03, 0x30,
        0x85898EC1, 0x16263806, 0x0, 0x180, 0x2C4C700C, 0xF0, 0x93AFB507, 0x5898E048,
        0x8E9A9202, 0x600, 0xB131C0F0, 0x16263BC6, 0x4EBED41E, 0x626380A1, 0x16263806, 0x18C0,
        0xD2E138C4, 0xF00, 0x3AFB5079, 0x898E04E5, 0xE2BA3C2B, 0x60C0, 0x53A37CD, 0x74458547,
        0xDA9415ED, 0x26380A16, 0x626383A1, 0x4EBF54DE, 0x3835B44B, 0xF600, 0x1E84C7A3, 0x98E04D98,
        0x651D16A0, 0x62658CA1, 0x458544D6, 0x44584CB7, 0x7BA06619, 0x6380AEA2, 0xAE55269, 0x627B49A1,
        0x7CD45C9D, 0xF0000, 0xFB50753A, 0xEC6765E8, 0xBA3C2BE2, 0x60C000, 0x3A37CD05, 0x458546F4,
        0xB8599DD6, 0x380A1A26, 0x1E02203, 0xE7CC3456, 0xE6E60B69, 0xF60A00, 0x5795EF4F, 0x822E0879])
     (0x67452301, 0xEFCDAB89, 0x98BADCFE, 0x10325476, 0xC3D2E1F0) [0..<20] =
     (0xFD9E1D7D, 0xDC64901D, 0x20AA99CA, 0xD3A49608, 0xC82F758B)"
  by (simp add: upt_0_20 sha1_f_def sha1_k_def rotl_def)

lemma sha1_rounds2_abc_1: "foldl (sha1_round
       [0x61626380, 0x0, 0x0, 0x0, 0x0, 0x0, 0x0, 0x0,
        0x0, 0x0, 0x0, 0x0, 0x0, 0x0, 0x0, 0x18,
        0xC2C4C700, 0x0, 0x30, 0x85898E01, 0x0, 0x60, 0xB131C03, 0x30,
        0x85898EC1, 0x16263806, 0x0, 0x180, 0x2C4C700C, 0xF0, 0x93AFB507, 0x5898E048,
        0x8E9A9202, 0x600, 0xB131C0F0, 0x16263BC6, 0x4EBED41E, 0x626380A1, 0x16263806, 0x18C0,
        0xD2E138C4, 0xF00, 0x3AFB5079, 0x898E04E5, 0xE2BA3C2B, 0x60C0, 0x53A37CD, 0x74458547,
        0xDA9415ED, 0x26380A16, 0x626383A1, 0x4EBF54DE, 0x3835B44B, 0xF600, 0x1E84C7A3, 0x98E04D98,
        0x651D16A0, 0x62658CA1, 0x458544D6, 0x44584CB7, 0x7BA06619, 0x6380AEA2, 0xAE55269, 0x627B49A1,
        0x7CD45C9D, 0xF0000, 0xFB50753A, 0xEC6765E8, 0xBA3C2BE2, 0x60C000, 0x3A37CD05, 0x458546F4,
        0xB8599DD6, 0x380A1A26, 0x1E02203, 0xE7CC3456, 0xE6E60B69, 0xF60A00, 0x5795EF4F, 0x822E0879])
     (0xFD9E1D7D, 0xDC64901D, 0x20AA99CA, 0xD3A49608, 0xC82F758B) [20..<40] =
     (0x32DE1CBA, 0x4C986405, 0xF718E5CF, 0x3D447F6, 0xF72EEC32)"
  by (simp add: upt_0_20 sha1_f_def sha1_k_def rotl_def)

lemma sha1_rounds3_abc_1: "foldl (sha1_round
       [0x61626380, 0x0, 0x0, 0x0, 0x0, 0x0, 0x0, 0x0,
        0x0, 0x0, 0x0, 0x0, 0x0, 0x0, 0x0, 0x18,
        0xC2C4C700, 0x0, 0x30, 0x85898E01, 0x0, 0x60, 0xB131C03, 0x30,
        0x85898EC1, 0x16263806, 0x0, 0x180, 0x2C4C700C, 0xF0, 0x93AFB507, 0x5898E048,
        0x8E9A9202, 0x600, 0xB131C0F0, 0x16263BC6, 0x4EBED41E, 0x626380A1, 0x16263806, 0x18C0,
        0xD2E138C4, 0xF00, 0x3AFB5079, 0x898E04E5, 0xE2BA3C2B, 0x60C0, 0x53A37CD, 0x74458547,
        0xDA9415ED, 0x26380A16, 0x626383A1, 0x4EBF54DE, 0x3835B44B, 0xF600, 0x1E84C7A3, 0x98E04D98,
        0x651D16A0, 0x62658CA1, 0x458544D6, 0x44584CB7, 0x7BA06619, 0x6380AEA2, 0xAE55269, 0x627B49A1,
        0x7CD45C9D, 0xF0000, 0xFB50753A, 0xEC6765E8, 0xBA3C2BE2, 0x60C000, 0x3A37CD05, 0x458546F4,
        0xB8599DD6, 0x380A1A26, 0x1E02203, 0xE7CC3456, 0xE6E60B69, 0xF60A00, 0x5795EF4F, 0x822E0879])
     (0x32DE1CBA, 0x4C986405, 0xF718E5CF, 0x3D447F6, 0xF72EEC32) [40..<60] =
     (0x3F52DE5A, 0x9D785FD, 0x3498BFD4, 0xF211824F, 0xD79915AB)"
  by (simp add: upt_0_20 sha1_f_def sha1_k_def rotl_def)

lemma sha1_rounds4_abc_1: "foldl (sha1_round
       [0x61626380, 0x0, 0x0, 0x0, 0x0, 0x0, 0x0, 0x0,
        0x0, 0x0, 0x0, 0x0, 0x0, 0x0, 0x0, 0x18,
        0xC2C4C700, 0x0, 0x30, 0x85898E01, 0x0, 0x60, 0xB131C03, 0x30,
        0x85898EC1, 0x16263806, 0x0, 0x180, 0x2C4C700C, 0xF0, 0x93AFB507, 0x5898E048,
        0x8E9A9202, 0x600, 0xB131C0F0, 0x16263BC6, 0x4EBED41E, 0x626380A1, 0x16263806, 0x18C0,
        0xD2E138C4, 0xF00, 0x3AFB5079, 0x898E04E5, 0xE2BA3C2B, 0x60C0, 0x53A37CD, 0x74458547,
        0xDA9415ED, 0x26380A16, 0x626383A1, 0x4EBF54DE, 0x3835B44B, 0xF600, 0x1E84C7A3, 0x98E04D98,
        0x651D16A0, 0x62658CA1, 0x458544D6, 0x44584CB7, 0x7BA06619, 0x6380AEA2, 0xAE55269, 0x627B49A1,
        0x7CD45C9D, 0xF0000, 0xFB50753A, 0xEC6765E8, 0xBA3C2BE2, 0x60C000, 0x3A37CD05, 0x458546F4,
        0xB8599DD6, 0x380A1A26, 0x1E02203, 0xE7CC3456, 0xE6E60B69, 0xF60A00, 0x5795EF4F, 0x822E0879])
     (0x3F52DE5A, 0x9D785FD, 0x3498BFD4, 0xF211824F, 0xD79915AB) [60..<80] =
     (0x42541B35, 0x5738D5E1, 0x21834873, 0x681E6DF6, 0xD8FDF6AD)"
  by (simp add: upt_0_20 sha1_f_def sha1_k_def rotl_def)

lemma sha1_block_abc_1: "sha1_block
     (0x67452301, 0xEFCDAB89, 0x98BADCFE, 0x10325476, 0xC3D2E1F0)
    [0x61, 0x62, 0x63, 0x80, 0x0, 0x0, 0x0, 0x0, 0x0, 0x0, 0x0, 0x0, 0x0, 0x0, 0x0, 0x0,
    0x0, 0x0, 0x0, 0x0, 0x0, 0x0, 0x0, 0x0, 0x0, 0x0, 0x0, 0x0, 0x0, 0x0, 0x0, 0x0,
    0x0, 0x0, 0x0, 0x0, 0x0, 0x0, 0x0, 0x0, 0x0, 0x0, 0x0, 0x0, 0x0, 0x0, 0x0, 0x0,
    0x0, 0x0, 0x0, 0x0, 0x0, 0x0, 0x0, 0x0, 0x0, 0x0, 0x0, 0x0, 0x0, 0x0, 0x0, 0x18] =
     (0xA9993E36, 0x4706816A, 0xBA3E2571, 0x7850C26C, 0x9CD0D89D)"
  by (simp only: sha1_block_def sha1_schedule_abc_1 upt_0_80 foldl_append
        sha1_rounds1_abc_1 sha1_rounds2_abc_1 sha1_rounds3_abc_1 sha1_rounds4_abc_1)
     simp

lemma sha1_abc: "sha1
    [0x61, 0x62, 0x63] =
    [0xA9, 0x99, 0x3E, 0x36, 0x47, 0x6, 0x81, 0x6A, 0xBA, 0x3E,
    0x25, 0x71, 0x78, 0x50, 0xC2, 0x6C, 0x9C, 0xD0, 0xD8, 0x9D]"
  by (simp add: sha1_def sha1_pad_abc sha1_init_def sha1_block_abc_1 u32_bytes_def
        del: sha1_add.simps sha1_round.simps)

lemma sha1_pad_fips2: "sha1_pad
    [0x61, 0x62, 0x63, 0x64, 0x62, 0x63, 0x64, 0x65, 0x63, 0x64, 0x65, 0x66, 0x64, 0x65, 0x66, 0x67,
    0x65, 0x66, 0x67, 0x68, 0x66, 0x67, 0x68, 0x69, 0x67, 0x68, 0x69, 0x6A, 0x68, 0x69, 0x6A, 0x6B,
    0x69, 0x6A, 0x6B, 0x6C, 0x6A, 0x6B, 0x6C, 0x6D, 0x6B, 0x6C, 0x6D, 0x6E, 0x6C, 0x6D, 0x6E, 0x6F,
    0x6D, 0x6E, 0x6F, 0x70, 0x6E, 0x6F, 0x70, 0x71] =
    [0x61, 0x62, 0x63, 0x64, 0x62, 0x63, 0x64, 0x65, 0x63, 0x64, 0x65, 0x66, 0x64, 0x65, 0x66, 0x67,
    0x65, 0x66, 0x67, 0x68, 0x66, 0x67, 0x68, 0x69, 0x67, 0x68, 0x69, 0x6A, 0x68, 0x69, 0x6A, 0x6B,
    0x69, 0x6A, 0x6B, 0x6C, 0x6A, 0x6B, 0x6C, 0x6D, 0x6B, 0x6C, 0x6D, 0x6E, 0x6C, 0x6D, 0x6E, 0x6F,
    0x6D, 0x6E, 0x6F, 0x70, 0x6E, 0x6F, 0x70, 0x71, 0x80, 0x0, 0x0, 0x0, 0x0, 0x0, 0x0, 0x0,
    0x0, 0x0, 0x0, 0x0, 0x0, 0x0, 0x0, 0x0, 0x0, 0x0, 0x0, 0x0, 0x0, 0x0, 0x0, 0x0,
    0x0, 0x0, 0x0, 0x0, 0x0, 0x0, 0x0, 0x0, 0x0, 0x0, 0x0, 0x0, 0x0, 0x0, 0x0, 0x0,
    0x0, 0x0, 0x0, 0x0, 0x0, 0x0, 0x0, 0x0, 0x0, 0x0, 0x0, 0x0, 0x0, 0x0, 0x0, 0x0,
    0x0, 0x0, 0x0, 0x0, 0x0, 0x0, 0x0, 0x0, 0x0, 0x0, 0x0, 0x0, 0x0, 0x0, 0x1, 0xC0]"
  by (simp add: sha1_pad_def u64_bytes_def replicate_num upt_0_8)

lemma sha1_schedule_fips2_1: "sha1_schedule
    [0x61, 0x62, 0x63, 0x64, 0x62, 0x63, 0x64, 0x65, 0x63, 0x64, 0x65, 0x66, 0x64, 0x65, 0x66, 0x67,
    0x65, 0x66, 0x67, 0x68, 0x66, 0x67, 0x68, 0x69, 0x67, 0x68, 0x69, 0x6A, 0x68, 0x69, 0x6A, 0x6B,
    0x69, 0x6A, 0x6B, 0x6C, 0x6A, 0x6B, 0x6C, 0x6D, 0x6B, 0x6C, 0x6D, 0x6E, 0x6C, 0x6D, 0x6E, 0x6F,
    0x6D, 0x6E, 0x6F, 0x70, 0x6E, 0x6F, 0x70, 0x71, 0x80, 0x0, 0x0, 0x0, 0x0, 0x0, 0x0, 0x0] =
       [0x61626364, 0x62636465, 0x63646566, 0x64656667, 0x65666768, 0x66676869, 0x6768696A, 0x68696A6B,
        0x696A6B6C, 0x6A6B6C6D, 0x6B6C6D6E, 0x6C6D6E6F, 0x6D6E6F70, 0x6E6F7071, 0x80000000, 0x0,
        0xA063A3E, 0xD8DADCDF, 0xDADCDEC0, 0xC8D2B4BE, 0x6F757B5B, 0x757B5967, 0x8DA16D70, 0xDAEEFABA,
        0xFAF6CAB6, 0xA6FB675A, 0xC604CC8, 0x604CC02C, 0x49C0E6E2, 0x2EE8CBBC, 0xCFD72EC4, 0x97E9810E,
        0x989CBE8, 0xF24843FE, 0x5C40D0BA, 0xA8D9CC3B, 0xB2B9666E, 0xBA7B71B7, 0x20B28A72, 0xB28AF500,
        0x8AC87842, 0x289ADDF4, 0x56D51F21, 0xD96B7FD2, 0x3868E778, 0xAB5E4848, 0x7F0E2118, 0xDE87A111,
        0xE8BE56B0, 0x1A0AE652, 0xCD5611C8, 0x46EF29DC, 0x60D3DA6D, 0xDDF3BA6E, 0x2737F5E9, 0x4888A710,
        0xD2A1177B, 0x9999633B, 0xD6C69D03, 0xCCF6127B, 0x7C58FE6D, 0xFDD99C68, 0xF8E32074, 0xE0BA3C7D,
        0x152198D6, 0x7B3F1982, 0x37F2D5B7, 0x8596323E, 0x810790D6, 0xBEA0A942, 0x11C7E1B1, 0x6158D101,
        0x5FCD77D9, 0x7F2F12E6, 0xF868CFB1, 0xD6E997E9, 0xF526B852, 0xB7578DCC, 0x55D99DF4, 0x1FF69958]"
  by (simp add: sha1_schedule_def sha1_extend_def rotl_def be32_def chunks_of_num
        del: chunks_of.simps(2))

lemma sha1_rounds1_fips2_1: "foldl (sha1_round
       [0x61626364, 0x62636465, 0x63646566, 0x64656667, 0x65666768, 0x66676869, 0x6768696A, 0x68696A6B,
        0x696A6B6C, 0x6A6B6C6D, 0x6B6C6D6E, 0x6C6D6E6F, 0x6D6E6F70, 0x6E6F7071, 0x80000000, 0x0,
        0xA063A3E, 0xD8DADCDF, 0xDADCDEC0, 0xC8D2B4BE, 0x6F757B5B, 0x757B5967, 0x8DA16D70, 0xDAEEFABA,
        0xFAF6CAB6, 0xA6FB675A, 0xC604CC8, 0x604CC02C, 0x49C0E6E2, 0x2EE8CBBC, 0xCFD72EC4, 0x97E9810E,
        0x989CBE8, 0xF24843FE, 0x5C40D0BA, 0xA8D9CC3B, 0xB2B9666E, 0xBA7B71B7, 0x20B28A72, 0xB28AF500,
        0x8AC87842, 0x289ADDF4, 0x56D51F21, 0xD96B7FD2, 0x3868E778, 0xAB5E4848, 0x7F0E2118, 0xDE87A111,
        0xE8BE56B0, 0x1A0AE652, 0xCD5611C8, 0x46EF29DC, 0x60D3DA6D, 0xDDF3BA6E, 0x2737F5E9, 0x4888A710,
        0xD2A1177B, 0x9999633B, 0xD6C69D03, 0xCCF6127B, 0x7C58FE6D, 0xFDD99C68, 0xF8E32074, 0xE0BA3C7D,
        0x152198D6, 0x7B3F1982, 0x37F2D5B7, 0x8596323E, 0x810790D6, 0xBEA0A942, 0x11C7E1B1, 0x6158D101,
        0x5FCD77D9, 0x7F2F12E6, 0xF868CFB1, 0xD6E997E9, 0xF526B852, 0xB7578DCC, 0x55D99DF4, 0x1FF69958])
     (0x67452301, 0xEFCDAB89, 0x98BADCFE, 0x10325476, 0xC3D2E1F0) [0..<20] =
     (0x6C445652, 0x944B1BD1, 0x509AE70D, 0x1AC1A012, 0x5098DF8E)"
  by (simp add: upt_0_20 sha1_f_def sha1_k_def rotl_def)

lemma sha1_rounds2_fips2_1: "foldl (sha1_round
       [0x61626364, 0x62636465, 0x63646566, 0x64656667, 0x65666768, 0x66676869, 0x6768696A, 0x68696A6B,
        0x696A6B6C, 0x6A6B6C6D, 0x6B6C6D6E, 0x6C6D6E6F, 0x6D6E6F70, 0x6E6F7071, 0x80000000, 0x0,
        0xA063A3E, 0xD8DADCDF, 0xDADCDEC0, 0xC8D2B4BE, 0x6F757B5B, 0x757B5967, 0x8DA16D70, 0xDAEEFABA,
        0xFAF6CAB6, 0xA6FB675A, 0xC604CC8, 0x604CC02C, 0x49C0E6E2, 0x2EE8CBBC, 0xCFD72EC4, 0x97E9810E,
        0x989CBE8, 0xF24843FE, 0x5C40D0BA, 0xA8D9CC3B, 0xB2B9666E, 0xBA7B71B7, 0x20B28A72, 0xB28AF500,
        0x8AC87842, 0x289ADDF4, 0x56D51F21, 0xD96B7FD2, 0x3868E778, 0xAB5E4848, 0x7F0E2118, 0xDE87A111,
        0xE8BE56B0, 0x1A0AE652, 0xCD5611C8, 0x46EF29DC, 0x60D3DA6D, 0xDDF3BA6E, 0x2737F5E9, 0x4888A710,
        0xD2A1177B, 0x9999633B, 0xD6C69D03, 0xCCF6127B, 0x7C58FE6D, 0xFDD99C68, 0xF8E32074, 0xE0BA3C7D,
        0x152198D6, 0x7B3F1982, 0x37F2D5B7, 0x8596323E, 0x810790D6, 0xBEA0A942, 0x11C7E1B1, 0x6158D101,
        0x5FCD77D9, 0x7F2F12E6, 0xF868CFB1, 0xD6E997E9, 0xF526B852, 0xB7578DCC, 0x55D99DF4, 0x1FF69958])
     (0x6C445652, 0x944B1BD1, 0x509AE70D, 0x1AC1A012, 0x5098DF8E) [20..<40] =
     (0xADEB7478, 0x24957F22, 0x50FE1EBA, 0x564CFF26, 0xAADF0CBB)"
  by (simp add: upt_0_20 sha1_f_def sha1_k_def rotl_def)

lemma sha1_rounds3_fips2_1: "foldl (sha1_round
       [0x61626364, 0x62636465, 0x63646566, 0x64656667, 0x65666768, 0x66676869, 0x6768696A, 0x68696A6B,
        0x696A6B6C, 0x6A6B6C6D, 0x6B6C6D6E, 0x6C6D6E6F, 0x6D6E6F70, 0x6E6F7071, 0x80000000, 0x0,
        0xA063A3E, 0xD8DADCDF, 0xDADCDEC0, 0xC8D2B4BE, 0x6F757B5B, 0x757B5967, 0x8DA16D70, 0xDAEEFABA,
        0xFAF6CAB6, 0xA6FB675A, 0xC604CC8, 0x604CC02C, 0x49C0E6E2, 0x2EE8CBBC, 0xCFD72EC4, 0x97E9810E,
        0x989CBE8, 0xF24843FE, 0x5C40D0BA, 0xA8D9CC3B, 0xB2B9666E, 0xBA7B71B7, 0x20B28A72, 0xB28AF500,
        0x8AC87842, 0x289ADDF4, 0x56D51F21, 0xD96B7FD2, 0x3868E778, 0xAB5E4848, 0x7F0E2118, 0xDE87A111,
        0xE8BE56B0, 0x1A0AE652, 0xCD5611C8, 0x46EF29DC, 0x60D3DA6D, 0xDDF3BA6E, 0x2737F5E9, 0x4888A710,
        0xD2A1177B, 0x9999633B, 0xD6C69D03, 0xCCF6127B, 0x7C58FE6D, 0xFDD99C68, 0xF8E32074, 0xE0BA3C7D,
        0x152198D6, 0x7B3F1982, 0x37F2D5B7, 0x8596323E, 0x810790D6, 0xBEA0A942, 0x11C7E1B1, 0x6158D101,
        0x5FCD77D9, 0x7F2F12E6, 0xF868CFB1, 0xD6E997E9, 0xF526B852, 0xB7578DCC, 0x55D99DF4, 0x1FF69958])
     (0xADEB7478, 0x24957F22, 0x50FE1EBA, 0x564CFF26, 0xAADF0CBB) [40..<60] =
     (0x9EF775C3, 0xF03D3782, 0xEB029E53, 0xE9A06DC8, 0x1DDB0E44)"
  by (simp add: upt_0_20 sha1_f_def sha1_k_def rotl_def)

lemma sha1_rounds4_fips2_1: "foldl (sha1_round
       [0x61626364, 0x62636465, 0x63646566, 0x64656667, 0x65666768, 0x66676869, 0x6768696A, 0x68696A6B,
        0x696A6B6C, 0x6A6B6C6D, 0x6B6C6D6E, 0x6C6D6E6F, 0x6D6E6F70, 0x6E6F7071, 0x80000000, 0x0,
        0xA063A3E, 0xD8DADCDF, 0xDADCDEC0, 0xC8D2B4BE, 0x6F757B5B, 0x757B5967, 0x8DA16D70, 0xDAEEFABA,
        0xFAF6CAB6, 0xA6FB675A, 0xC604CC8, 0x604CC02C, 0x49C0E6E2, 0x2EE8CBBC, 0xCFD72EC4, 0x97E9810E,
        0x989CBE8, 0xF24843FE, 0x5C40D0BA, 0xA8D9CC3B, 0xB2B9666E, 0xBA7B71B7, 0x20B28A72, 0xB28AF500,
        0x8AC87842, 0x289ADDF4, 0x56D51F21, 0xD96B7FD2, 0x3868E778, 0xAB5E4848, 0x7F0E2118, 0xDE87A111,
        0xE8BE56B0, 0x1A0AE652, 0xCD5611C8, 0x46EF29DC, 0x60D3DA6D, 0xDDF3BA6E, 0x2737F5E9, 0x4888A710,
        0xD2A1177B, 0x9999633B, 0xD6C69D03, 0xCCF6127B, 0x7C58FE6D, 0xFDD99C68, 0xF8E32074, 0xE0BA3C7D,
        0x152198D6, 0x7B3F1982, 0x37F2D5B7, 0x8596323E, 0x810790D6, 0xBEA0A942, 0x11C7E1B1, 0x6158D101,
        0x5FCD77D9, 0x7F2F12E6, 0xF868CFB1, 0xD6E997E9, 0xF526B852, 0xB7578DCC, 0x55D99DF4, 0x1FF69958])
     (0x9EF775C3, 0xF03D3782, 0xEB029E53, 0xE9A06DC8, 0x1DDB0E44) [60..<80] =
     (0x8CE34517, 0xD3AD7C25, 0x6B4E1883, 0x74351CD2, 0x86838382)"
  by (simp add: upt_0_20 sha1_f_def sha1_k_def rotl_def)

lemma sha1_block_fips2_1: "sha1_block
     (0x67452301, 0xEFCDAB89, 0x98BADCFE, 0x10325476, 0xC3D2E1F0)
    [0x61, 0x62, 0x63, 0x64, 0x62, 0x63, 0x64, 0x65, 0x63, 0x64, 0x65, 0x66, 0x64, 0x65, 0x66, 0x67,
    0x65, 0x66, 0x67, 0x68, 0x66, 0x67, 0x68, 0x69, 0x67, 0x68, 0x69, 0x6A, 0x68, 0x69, 0x6A, 0x6B,
    0x69, 0x6A, 0x6B, 0x6C, 0x6A, 0x6B, 0x6C, 0x6D, 0x6B, 0x6C, 0x6D, 0x6E, 0x6C, 0x6D, 0x6E, 0x6F,
    0x6D, 0x6E, 0x6F, 0x70, 0x6E, 0x6F, 0x70, 0x71, 0x80, 0x0, 0x0, 0x0, 0x0, 0x0, 0x0, 0x0] =
     (0xF4286818, 0xC37B27AE, 0x408F581, 0x84677148, 0x4A566572)"
  by (simp only: sha1_block_def sha1_schedule_fips2_1 upt_0_80 foldl_append
        sha1_rounds1_fips2_1 sha1_rounds2_fips2_1 sha1_rounds3_fips2_1 sha1_rounds4_fips2_1)
     simp

lemma sha1_schedule_fips2_2: "sha1_schedule
    [0x0, 0x0, 0x0, 0x0, 0x0, 0x0, 0x0, 0x0, 0x0, 0x0, 0x0, 0x0, 0x0, 0x0, 0x0, 0x0,
    0x0, 0x0, 0x0, 0x0, 0x0, 0x0, 0x0, 0x0, 0x0, 0x0, 0x0, 0x0, 0x0, 0x0, 0x0, 0x0,
    0x0, 0x0, 0x0, 0x0, 0x0, 0x0, 0x0, 0x0, 0x0, 0x0, 0x0, 0x0, 0x0, 0x0, 0x0, 0x0,
    0x0, 0x0, 0x0, 0x0, 0x0, 0x0, 0x0, 0x0, 0x0, 0x0, 0x0, 0x0, 0x0, 0x0, 0x1, 0xC0] =
       [0x0, 0x0, 0x0, 0x0, 0x0, 0x0, 0x0, 0x0,
        0x0, 0x0, 0x0, 0x0, 0x0, 0x0, 0x0, 0x1C0,
        0x0, 0x0, 0x380, 0x0, 0x0, 0x700, 0x0, 0x380,
        0xE00, 0x0, 0x0, 0x1C00, 0x0, 0xD80, 0x3800, 0x480,
        0x0, 0x7000, 0xE00, 0x3600, 0xE000, 0xE00, 0x0, 0x1CE00,
        0x0, 0xD800, 0x38000, 0x4F00, 0x0, 0x70E00, 0xEE00, 0x37500,
        0xE0000, 0xE000, 0x3600, 0x1CEE00, 0x0, 0xDF000, 0x380000, 0x4C600,
        0xE000, 0x70EE00, 0xEE000, 0x369E00, 0xE00000, 0xED600, 0xE000, 0x1CEA600,
        0x0, 0xD80000, 0x380E000, 0x4F0000, 0x0, 0x70E0000, 0xEE0000, 0x3751C00,
        0xE000000, 0xE0E000, 0x363800, 0x1CEE9000, 0x0, 0xDF09000, 0x3800E000, 0x4C77400]"
  by (simp add: sha1_schedule_def sha1_extend_def rotl_def be32_def chunks_of_num
        del: chunks_of.simps(2))

lemma sha1_rounds1_fips2_2: "foldl (sha1_round
       [0x0, 0x0, 0x0, 0x0, 0x0, 0x0, 0x0, 0x0,
        0x0, 0x0, 0x0, 0x0, 0x0, 0x0, 0x0, 0x1C0,
        0x0, 0x0, 0x380, 0x0, 0x0, 0x700, 0x0, 0x380,
        0xE00, 0x0, 0x0, 0x1C00, 0x0, 0xD80, 0x3800, 0x480,
        0x0, 0x7000, 0xE00, 0x3600, 0xE000, 0xE00, 0x0, 0x1CE00,
        0x0, 0xD800, 0x38000, 0x4F00, 0x0, 0x70E00, 0xEE00, 0x37500,
        0xE0000, 0xE000, 0x3600, 0x1CEE00, 0x0, 0xDF000, 0x380000, 0x4C600,
        0xE000, 0x70EE00, 0xEE000, 0x369E00, 0xE00000, 0xED600, 0xE000, 0x1CEA600,
        0x0, 0xD80000, 0x380E000, 0x4F0000, 0x0, 0x70E0000, 0xEE0000, 0x3751C00,
        0xE000000, 0xE0E000, 0x363800, 0x1CEE9000, 0x0, 0xDF09000, 0x3800E000, 0x4C77400])
     (0xF4286818, 0xC37B27AE, 0x408F581, 0x84677148, 0x4A566572) [0..<20] =
     (0xD8992153, 0xC2EB709F, 0x2946D62F, 0x9541F6DB, 0x365DC8D8)"
  by (simp add: upt_0_20 sha1_f_def sha1_k_def rotl_def)

lemma sha1_rounds2_fips2_2: "foldl (sha1_round
       [0x0, 0x0, 0x0, 0x0, 0x0, 0x0, 0x0, 0x0,
        0x0, 0x0, 0x0, 0x0, 0x0, 0x0, 0x0, 0x1C0,
        0x0, 0x0, 0x380, 0x0, 0x0, 0x700, 0x0, 0x380,
        0xE00, 0x0, 0x0, 0x1C00, 0x0, 0xD80, 0x3800, 0x480,
        0x0, 0x7000, 0xE00, 0x3600, 0xE000, 0xE00, 0x0, 0x1CE00,
        0x0, 0xD800, 0x38000, 0x4F00, 0x0, 0x70E00, 0xEE00, 0x37500,
        0xE0000, 0xE000, 0x3600, 0x1CEE00, 0x0, 0xDF000, 0x380000, 0x4C600,
        0xE000, 0x70EE00, 0xEE000, 0x369E00, 0xE00000, 0xED600, 0xE000, 0x1CEA600,
        0x0, 0xD80000, 0x380E000, 0x4F0000, 0x0, 0x70E0000, 0xEE0000, 0x3751C00,
        0xE000000, 0xE0E000, 0x363800, 0x1CEE9000, 0x0, 0xDF09000, 0x3800E000, 0x4C77400])
     (0xD8992153, 0xC2EB709F, 0x2946D62F, 0x9541F6DB, 0x365DC8D8) [20..<40] =
     (0x3BB6310, 0x84E2A5F2, 0x21F56E03, 0xB3BD6B84, 0x1A5B6901)"
  by (simp add: upt_0_20 sha1_f_def sha1_k_def rotl_def)

lemma sha1_rounds3_fips2_2: "foldl (sha1_round
       [0x0, 0x0, 0x0, 0x0, 0x0, 0x0, 0x0, 0x0,
        0x0, 0x0, 0x0, 0x0, 0x0, 0x0, 0x0, 0x1C0,
        0x0, 0x0, 0x380, 0x0, 0x0, 0x700, 0x0, 0x380,
        0xE00, 0x0, 0x0, 0x1C00, 0x0, 0xD80, 0x3800, 0x480,
        0x0, 0x7000, 0xE00, 0x3600, 0xE000, 0xE00, 0x0, 0x1CE00,
        0x0, 0xD800, 0x38000, 0x4F00, 0x0, 0x70E00, 0xEE00, 0x37500,
        0xE0000, 0xE000, 0x3600, 0x1CEE00, 0x0, 0xDF000, 0x380000, 0x4C600,
        0xE000, 0x70EE00, 0xEE000, 0x369E00, 0xE00000, 0xED600, 0xE000, 0x1CEA600,
        0x0, 0xD80000, 0x380E000, 0x4F0000, 0x0, 0x70E0000, 0xEE0000, 0x3751C00,
        0xE000000, 0xE0E000, 0x363800, 0x1CEE9000, 0x0, 0xDF09000, 0x3800E000, 0x4C77400])
     (0x3BB6310, 0x84E2A5F2, 0x21F56E03, 0xB3BD6B84, 0x1A5B6901) [40..<60] =
     (0xA65818F7, 0x5B086C42, 0xB9E15956, 0xEA1256A6, 0xDB69CB9F)"
  by (simp add: upt_0_20 sha1_f_def sha1_k_def rotl_def)

lemma sha1_rounds4_fips2_2: "foldl (sha1_round
       [0x0, 0x0, 0x0, 0x0, 0x0, 0x0, 0x0, 0x0,
        0x0, 0x0, 0x0, 0x0, 0x0, 0x0, 0x0, 0x1C0,
        0x0, 0x0, 0x380, 0x0, 0x0, 0x700, 0x0, 0x380,
        0xE00, 0x0, 0x0, 0x1C00, 0x0, 0xD80, 0x3800, 0x480,
        0x0, 0x7000, 0xE00, 0x3600, 0xE000, 0xE00, 0x0, 0x1CE00,
        0x0, 0xD800, 0x38000, 0x4F00, 0x0, 0x70E00, 0xEE00, 0x37500,
        0xE0000, 0xE000, 0x3600, 0x1CEE00, 0x0, 0xDF000, 0x380000, 0x4C600,
        0xE000, 0x70EE00, 0xEE000, 0x369E00, 0xE00000, 0xED600, 0xE000, 0x1CEA600,
        0x0, 0xD80000, 0x380E000, 0x4F0000, 0x0, 0x70E0000, 0xEE0000, 0x3751C00,
        0xE000000, 0xE0E000, 0x363800, 0x1CEE9000, 0x0, 0xDF09000, 0x3800E000, 0x4C77400])
     (0xA65818F7, 0x5B086C42, 0xB9E15956, 0xEA1256A6, 0xDB69CB9F) [60..<80] =
     (0x906FD62C, 0x58C0AAC0, 0xB6A55520, 0x74E9B89D, 0x9AF00B7F)"
  by (simp add: upt_0_20 sha1_f_def sha1_k_def rotl_def)

lemma sha1_block_fips2_2: "sha1_block
     (0xF4286818, 0xC37B27AE, 0x408F581, 0x84677148, 0x4A566572)
    [0x0, 0x0, 0x0, 0x0, 0x0, 0x0, 0x0, 0x0, 0x0, 0x0, 0x0, 0x0, 0x0, 0x0, 0x0, 0x0,
    0x0, 0x0, 0x0, 0x0, 0x0, 0x0, 0x0, 0x0, 0x0, 0x0, 0x0, 0x0, 0x0, 0x0, 0x0, 0x0,
    0x0, 0x0, 0x0, 0x0, 0x0, 0x0, 0x0, 0x0, 0x0, 0x0, 0x0, 0x0, 0x0, 0x0, 0x0, 0x0,
    0x0, 0x0, 0x0, 0x0, 0x0, 0x0, 0x0, 0x0, 0x0, 0x0, 0x0, 0x0, 0x0, 0x0, 0x1, 0xC0] =
     (0x84983E44, 0x1C3BD26E, 0xBAAE4AA1, 0xF95129E5, 0xE54670F1)"
  by (simp only: sha1_block_def sha1_schedule_fips2_2 upt_0_80 foldl_append
        sha1_rounds1_fips2_2 sha1_rounds2_fips2_2 sha1_rounds3_fips2_2 sha1_rounds4_fips2_2)
     simp

lemma sha1_fips2: "sha1
    [0x61, 0x62, 0x63, 0x64, 0x62, 0x63, 0x64, 0x65, 0x63, 0x64, 0x65, 0x66, 0x64, 0x65, 0x66, 0x67,
    0x65, 0x66, 0x67, 0x68, 0x66, 0x67, 0x68, 0x69, 0x67, 0x68, 0x69, 0x6A, 0x68, 0x69, 0x6A, 0x6B,
    0x69, 0x6A, 0x6B, 0x6C, 0x6A, 0x6B, 0x6C, 0x6D, 0x6B, 0x6C, 0x6D, 0x6E, 0x6C, 0x6D, 0x6E, 0x6F,
    0x6D, 0x6E, 0x6F, 0x70, 0x6E, 0x6F, 0x70, 0x71] =
    [0x84, 0x98, 0x3E, 0x44, 0x1C, 0x3B, 0xD2, 0x6E, 0xBA, 0xAE,
    0x4A, 0xA1, 0xF9, 0x51, 0x29, 0xE5, 0xE5, 0x46, 0x70, 0xF1]"
  by (simp add: sha1_def sha1_pad_fips2 sha1_init_def sha1_block_fips2_1 sha1_block_fips2_2 u32_bytes_def
        del: sha1_add.simps sha1_round.simps)

section \<open>The encoder and RFC 4648\<close>

lemma bits_value_snoc: "bits_value (xs @ [x]) = 2 * bits_value xs + of_bool x"
  by (simp add: bits_value_def)

lemma bits_value_append:
  "bits_value (xs @ ys) = bits_value xs * 2 ^ length ys + bits_value ys"
proof (induction ys rule: rev_induct)
  case Nil
  then show ?case by (simp add: bits_value_def)
next
  case (snoc y ys)
  have "bits_value (xs @ ys @ [y]) = 2 * bits_value (xs @ ys) + of_bool y"
    using bits_value_snoc [of "xs @ ys" y] by simp
  with snoc show ?case by (simp add: bits_value_snoc algebra_simps)
qed

lemma bits_value_less: "bits_value xs < 2 ^ length xs"
proof (induction xs rule: rev_induct)
  case Nil
  then show ?case by (simp add: bits_value_def)
next
  case (snoc x xs)
  then show ?case by (cases x) (simp_all add: bits_value_snoc)
qed

lemma bits_value_slice:
  assumes "j + k \<le> length xs"
  shows "bits_value (take k (drop j xs)) = bits_value xs div 2 ^ (length xs - j - k) mod 2 ^ k"
proof -
  define A where "A = take j xs"
  define B where "B = take k (drop j xs)"
  define C where "C = drop (j + k) xs"
  have xs: "xs = A @ B @ C"
    unfolding A_def B_def C_def
    by (metis add.commute append_take_drop_id drop_drop)
  have lB: "length B = k" unfolding B_def using assms by simp
  have lC: "length C = length xs - j - k" unfolding C_def by simp
  have "bits_value xs = (bits_value A * 2 ^ k + bits_value B) * 2 ^ length C + bits_value C"
    by (subst xs) (simp add: bits_value_append lB algebra_simps power_add)
  then have "bits_value xs div 2 ^ length C = bits_value A * 2 ^ k + bits_value B"
    using bits_value_less [of C] by simp
  then have "bits_value xs div 2 ^ length C mod 2 ^ k = bits_value B"
    using bits_value_less [of B] by (simp add: lB)
  then show ?thesis by (simp add: lC B_def)
qed

lemma bits_value_bits_of: "bits_value (bits_of b) = unat b"
proof -
  have "horner_sum of_bool 2 (map (bit (unat b)) [0..<8]) = take_bit 8 (unat b)"
    by (rule horner_sum_bit_eq_take_bit)
  moreover have "take_bit 8 (unat b) = unat b"
    by (rule take_bit_nat_eq_self) (use unsigned_less [of b] in simp)
  moreover have "[0..<8] = [0, 1, 2, 3, 4, 5, 6, 7]" by (simp add: upt_conv_Cons)
  ultimately have "unat b = horner_sum of_bool 2 (map (bit (unat b)) [0, 1, 2, 3, 4, 5, 6, 7])"
    by simp
  then show ?thesis
    by (simp add: bits_of_def bits_value_def bit_unsigned_iff)
qed

lemma bitstream_append: "bitstream (xs @ ys) = bitstream xs @ bitstream ys"
  by (simp add: bitstream_def)

lemma length_bitstream: "length (bitstream bs) = 8 * length bs"
  by (induction bs) (simp_all add: bitstream_def bits_of_def)

lemma bits_value_bitstream: "bits_value (bitstream bs) = from_bytes bs"
proof (induction bs rule: rev_induct)
  case Nil
  then show ?case by (simp add: bitstream_def bits_value_def from_bytes_def)
next
  case (snoc b bs)
  have "bitstream (bs @ [b]) = bitstream bs @ bits_of b" by (simp add: bitstream_def)
  moreover have "length (bits_of b) = 8" by (simp add: bits_of_def)
  moreover have "from_bytes (bs @ [b]) = 256 * from_bytes bs + unat b"
    by (simp add: from_bytes_def)
  ultimately show ?case using snoc by (simp add: bits_value_append bits_value_bits_of)
qed


lemma chunks_of_step:
  "0 < n \<Longrightarrow> xs \<noteq> [] \<Longrightarrow> chunks_of n xs = take n xs # chunks_of n (drop n xs)"
  by (cases xs) simp_all

lemma chunks_of_append:
  "0 < n \<Longrightarrow> length xs = n * m \<Longrightarrow> chunks_of n (xs @ ys) = chunks_of n xs @ chunks_of n ys"
proof (induction m arbitrary: xs)
  case 0
  then show ?case by simp
next
  case (Suc m)
  then have ne: "xs \<noteq> []" by auto
  have len: "length (drop n xs) = n * m" using Suc.prems by simp
  have ge: "n \<le> length xs" using Suc.prems by simp
  have "chunks_of n (xs @ ys) = take n (xs @ ys) # chunks_of n (drop n (xs @ ys))"
    using Suc.prems(1) ne by (simp add: chunks_of_step)
  also have "\<dots> = take n xs # chunks_of n (drop n xs @ ys)" using ge by simp
  also have "\<dots> = take n xs # chunks_of n (drop n xs) @ chunks_of n ys"
    using Suc.IH [OF Suc.prems(1) len] by simp
  also have "\<dots> = chunks_of n xs @ chunks_of n ys"
    using Suc.prems(1) ne by (simp add: chunks_of_step)
  finally show ?case .
qed

lemma chunks_of_slices:
  "0 < n \<Longrightarrow> length xs = n * m \<Longrightarrow>
     chunks_of n xs = map (\<lambda>i. take n (drop (n * i) xs)) [0..<m]"
proof (induction m arbitrary: xs)
  case 0
  then show ?case by simp
next
  case (Suc m)
  then have ne: "xs \<noteq> []" by auto
  have len: "length (drop n xs) = n * m" using Suc.prems by simp
  have "[0..<Suc m] = 0 # map Suc [0..<m]"
    by (simp add: upt_conv_Cons map_Suc_upt del: upt_Suc)
  then have "map (\<lambda>i. take n (drop (n * i) xs)) [0..<Suc m]
      = take n xs # map (\<lambda>i. take n (drop (n * i) (drop n xs))) [0..<m]"
    by (simp add: add.commute del: upt_Suc)
  with Suc.IH [OF Suc.prems(1) len] Suc.prems(1) ne show ?case
    by (simp add: chunks_of_step del: upt_Suc)
qed

lemma b32group_bits:
  assumes "length g = 5"
  shows "map (\<lambda>c. b32alphabet ! bits_value c) (chunks_of 5 (bitstream g)) = b32group g"
proof -
  have len: "length (bitstream g) = 5 * 8" using assms by (simp add: length_bitstream)
  have "bits_value (take 5 (drop (5 * i) (bitstream g))) = from_bytes g div 32 ^ (7 - i) mod 32"
    if "i < 8" for i
  proof -
    have "5 * i + 5 \<le> length (bitstream g)" using that len by simp
    from bits_value_slice [OF this]
    have "bits_value (take 5 (drop (5 * i) (bitstream g)))
        = from_bytes g div 2 ^ (40 - 5 * i - 5) mod 2 ^ 5"
      using len by (simp add: bits_value_bitstream)
    moreover have "40 - 5 * i - 5 = 5 * (7 - i)" using that by simp
    moreover have "(2::nat) ^ (5 * (7 - i)) = 32 ^ (7 - i)" by (simp add: power_mult)
    ultimately show ?thesis by simp
  qed
  then show ?thesis
    unfolding chunks_of_slices [of 5 "bitstream g" 8, OF _ len, simplified] b32group_def
    by simp
qed

lemma set_chunks_of_whole:
  assumes "0 < n" and "length xs = n * m" and "g \<in> set (chunks_of n xs)"
  shows "length g = n"
proof -
  from assms obtain i where i: "i < m" and g: "g = take n (drop (n * i) xs)"
    by (auto simp: chunks_of_slices)
  from i have "n * Suc i \<le> n * m" by (intro mult_le_mono2) simp
  then have "n * i + n \<le> length xs" using assms(2) by simp
  then show ?thesis by (simp add: g)
qed

lemma chunks_of_bitstream:
  "length s = 5 * m \<Longrightarrow>
     chunks_of 5 (bitstream s) = concat (map (\<lambda>g. chunks_of 5 (bitstream g)) (chunks_of 5 s))"
proof (induction m arbitrary: s)
  case 0
  then show ?case by (simp add: bitstream_def)
next
  case (Suc m)
  then have ne: "s \<noteq> []" by auto
  have len: "length (drop 5 s) = 5 * m" using Suc.prems by simp
  have l5: "length (bitstream (take 5 s)) = 5 * 8"
    using Suc.prems by (simp add: length_bitstream)
  have "bitstream s = bitstream (take 5 s) @ bitstream (drop 5 s)"
    using bitstream_append [of "take 5 s" "drop 5 s"] by simp
  then have "chunks_of 5 (bitstream s)
      = chunks_of 5 (bitstream (take 5 s)) @ chunks_of 5 (bitstream (drop 5 s))"
    using chunks_of_append [of 5 "bitstream (take 5 s)" 8, OF _ l5] by simp
  with Suc.IH [OF len] ne show ?case by (simp add: chunks_of_step)
qed

lemma b32encode_rfc4648:
  assumes "length s mod 5 = 0"
  shows "b32encode s = rfc4648_base32 s"
proof -
  from assms obtain m where m: "length s = 5 * m" by (auto simp: mod_eq_0_iff_dvd)
  have lb: "length (bitstream s) = 5 * (8 * m)" using m by (simp add: length_bitstream)
  have groups: "\<And>g. g \<in> set (chunks_of 5 s) \<Longrightarrow> length g = 5"
    using set_chunks_of_whole [of 5 s m] m by simp
  have "map (\<lambda>c. b32alphabet ! bits_value c) (chunks_of 5 (bitstream s))
      = concat (map (\<lambda>g. map (\<lambda>c. b32alphabet ! bits_value c) (chunks_of 5 (bitstream g)))
          (chunks_of 5 s))"
    by (simp add: chunks_of_bitstream [OF m] map_concat comp_def)
  also have "\<dots> = concat (map b32group (chunks_of 5 s))"
    using groups by (simp add: b32group_bits cong: map_cong)
  finally have chars: "map (\<lambda>c. b32alphabet ! bits_value c) (chunks_of 5 (bitstream s))
      = concat (map b32group (chunks_of 5 s))" .
  have lch: "length (chunks_of 5 (bitstream s)) = 8 * m"
    using chunks_of_slices [of 5 "bitstream s" "8 * m", OF _ lb] by simp
  have "rfc4648_base32 s = concat (map b32group (chunks_of 5 s))"
    using lb lch by (simp add: rfc4648_base32_def Let_def chars)
  moreover have "b32encode s = concat (map b32group (chunks_of 5 s))"
    using assms by (simp add: b32encode_def b32pad_def Let_def)
  ultimately show ?thesis by simp
qed

lemma rfc4648_vectors:
  "rfc4648_base32 [] = []"
  "rfc4648_base32 [0x66] = ''MY======''"
  "rfc4648_base32 [0x66, 0x6F] = ''MZXQ====''"
  "rfc4648_base32 [0x66, 0x6F, 0x6F] = ''MZXW6===''"
  "rfc4648_base32 [0x66, 0x6F, 0x6F, 0x62] = ''MZXW6YQ=''"
  "rfc4648_base32 [0x66, 0x6F, 0x6F, 0x62, 0x61] = ''MZXW6YTB''"
  "rfc4648_base32 [0x66, 0x6F, 0x6F, 0x62, 0x61, 0x72] = ''MZXW6YTBOI======''"
  by (simp_all add: rfc4648_base32_def bitstream_def bits_of_def bits_value_def
        b32alphabet_def Let_def replicate_num)

lemma b32_groups_bits:
  assumes m: "length s = 5 * m"
  shows "concat (map b32group (chunks_of 5 s))
           = map (\<lambda>c. b32alphabet ! bits_value c) (chunks_of 5 (bitstream s))"
proof -
  have groups: "\<And>g. g \<in> set (chunks_of 5 s) \<Longrightarrow> length g = 5"
    using set_chunks_of_whole [of 5 s m] m by simp
  have "map (\<lambda>c. b32alphabet ! bits_value c) (chunks_of 5 (bitstream s))
      = concat (map (\<lambda>g. map (\<lambda>c. b32alphabet ! bits_value c) (chunks_of 5 (bitstream g)))
          (chunks_of 5 s))"
    by (simp add: chunks_of_bitstream [OF m] map_concat comp_def)
  also have "\<dots> = concat (map b32group (chunks_of 5 s))"
    using groups by (simp add: b32group_bits cong: map_cong)
  finally show ?thesis by simp
qed

lemma length_chunks_of_whole:
  "0 < n \<Longrightarrow> length xs = n * m \<Longrightarrow> length (chunks_of n xs) = m"
  by (simp add: chunks_of_slices)

lemma bitstream_zeros: "bitstream (replicate k 0) = replicate (8 * k) False"
proof (induction k)
  case 0
  then show ?case by (simp add: bitstream_def)
next
  case (Suc k)
  have "replicate (8 * Suc k) False = replicate 8 False @ replicate (8 * k) False"
    by (simp add: replicate_add [symmetric])
  with Suc show ?case by (simp add: bitstream_def bits_of_def replicate_num)
qed

lemma b32encode_tail:
  assumes len: "length s = 5 * m + l"
    and l: "0 < l" "l < 5"
    and z: "8 * l + z = 5 * c" "z < 5"
    and p: "c + p = 8" "b32pad l = p"
  shows "b32encode s = rfc4648_base32 s"
proof -
  let ?code = "\<lambda>c. b32alphabet ! bits_value c"
  let ?B = "bitstream s"
  let ?padded = "?B @ replicate z False"
  let ?s' = "s @ replicate (5 - l) 0"
  have lB: "length ?B = 40 * m + 8 * l" using len by (simp add: length_bitstream)
  have lpad: "length ?padded = 5 * (8 * m + c)" using lB z(1) by simp
  have rest: "8 * (5 - l) = z + 5 * p" using z(1) p(1) l by simp
  have ls': "length ?s' = 5 * (m + 1)" using len l by simp
  have "bitstream ?s' = ?B @ replicate (z + 5 * p) False"
    by (simp add: bitstream_append bitstream_zeros rest)
  also have "\<dots> = ?padded @ replicate (5 * p) False"
    by (simp add: replicate_add)
  finally have bs': "bitstream ?s' = ?padded @ replicate (5 * p) False" .
  have ch: "chunks_of 5 (bitstream ?s')
      = chunks_of 5 ?padded @ chunks_of 5 (replicate (5 * p) False)"
    unfolding bs' by (rule chunks_of_append [OF _ lpad]) simp
  have n1: "length (chunks_of 5 ?padded) = 8 * m + c"
    by (rule length_chunks_of_whole [OF _ lpad]) simp
  have n2: "length (chunks_of 5 (replicate (5 * p) False)) = p"
    by (rule length_chunks_of_whole) simp_all
  have enc: "concat (map b32group (chunks_of 5 ?s'))
      = map ?code (chunks_of 5 ?padded) @ map ?code (chunks_of 5 (replicate (5 * p) False))"
    by (simp add: b32_groups_bits [OF ls'] ch)
  have lmod: "length s mod 5 = l" using len l by simp
  have "b32encode s = take (length (concat (map b32group (chunks_of 5 ?s'))) - p)
                        (concat (map b32group (chunks_of 5 ?s'))) @ replicate p (CHR ''='')"
    using l by (simp add: b32encode_def Let_def lmod p(2))
  also have "take (length (concat (map b32group (chunks_of 5 ?s'))) - p)
                        (concat (map b32group (chunks_of 5 ?s')))
      = map ?code (chunks_of 5 ?padded)"
    unfolding enc by (simp add: n1 n2)
  finally have "b32encode s = map ?code (chunks_of 5 ?padded) @ replicate p (CHR ''='')" .
  moreover have zmod: "(5 - length ?B mod 5) mod 5 = z"
  proof -
    define r where "r = length ?B mod 5"
    have r: "r < 5" by (simp add: r_def)
    have "(length ?B + z) mod 5 = 0" using lpad by simp
    then have "(r + z) mod 5 = 0" by (simp add: r_def mod_add_left_eq)
    then obtain q where q: "r + z = 5 * q" by (auto simp: mod_eq_0_iff_dvd)
    with r z(2) have "q = 0 \<or> q = 1" by linarith
    with q r z(2) have "(5 - r) mod 5 = z" by auto
    then show ?thesis by (simp add: r_def)
  qed
  have "0 < c" using z(1) l by simp
  then have pmod: "(8 - c mod 8) mod 8 = p"
    using p(1) by (cases "c = 8") auto
  have "rfc4648_base32 s = map ?code (chunks_of 5 ?padded) @ replicate p (CHR ''='')"
    by (simp add: rfc4648_base32_def Let_def zmod n1 pmod)
  ultimately show ?thesis by simp
qed

lemma b32encode_rfc4648_all: "b32encode s = rfc4648_base32 s"
proof -
  define l where "l = length s mod 5"
  define m where "m = length s div 5"
  have len: "length s = 5 * m + l" and l5: "l < 5" by (simp_all add: l_def m_def)
  consider "l = 0" | "l = 1" | "l = 2" | "l = 3" | "l = 4" using l5 by linarith
  then show ?thesis
  proof cases
    case 1
    then show ?thesis using b32encode_rfc4648 [of s] by (simp add: l_def)
  next
    case 2
    show ?thesis
      by (rule b32encode_tail [OF len, of 2 2 6]) (simp_all add: 2 b32pad_def)
  next
    case 3
    show ?thesis
      by (rule b32encode_tail [OF len, of 4 4 4]) (simp_all add: 3 b32pad_def)
  next
    case 4
    show ?thesis
      by (rule b32encode_tail [OF len, of 1 5 3]) (simp_all add: 4 b32pad_def)
  next
    case 5
    show ?thesis
      by (rule b32encode_tail [OF len, of 3 7 1]) (simp_all add: 5 b32pad_def)
  qed
qed

text \<open>
  The digest has 20 bytes, so its Base32 encoding has 32 characters of the alphabet and
  no padding. The encoder agrees with the test vectors of RFC 4648, section 10.
\<close>

lemma length_sha1: "length (sha1 m) = 20"
proof -
  obtain a b c d e where
    "foldl sha1_block sha1_init (chunks_of 64 (sha1_pad m)) = (a, b, c, d, e)"
    by (cases "foldl sha1_block sha1_init (chunks_of 64 (sha1_pad m))") auto
  then show ?thesis by (simp add: sha1_def u32_bytes_def)
qed

lemma length_b32group: "length (b32group g) = 8"
  by (simp add: b32group_def)

lemma set_b32group: "set (b32group g) \<subseteq> set b32alphabet"
proof -
  have len: "length b32alphabet = 32" by (simp add: b32alphabet_def)
  have "b32alphabet ! (x mod 32) \<in> set b32alphabet" for x
    by (rule nth_mem) (simp add: len)
  then show ?thesis by (auto simp: b32group_def)
qed

lemma length_b32_groups:
  "length xs = 5 * m \<Longrightarrow> length (concat (map b32group (chunks_of 5 xs))) = 8 * m"
proof (induction m arbitrary: xs)
  case 0
  then show ?case by simp
next
  case (Suc m)
  then obtain x xs' where xs: "xs = x # xs'" by (cases xs) auto
  have "length (drop 5 xs) = 5 * m" using Suc.prems by simp
  from Suc.IH [OF this] have "length (concat (map b32group (chunks_of 5 (drop 5 xs)))) = 8 * m" .
  moreover have "chunks_of 5 xs = take 5 xs # chunks_of 5 (drop 5 xs)"
    unfolding xs by simp
  ultimately show ?case by (simp add: length_b32group)
qed

lemma b32encode_whole_groups:
  "length s mod 5 = 0 \<Longrightarrow> b32encode s = concat (map b32group (chunks_of 5 s))"
  by (simp add: b32encode_def b32pad_def Let_def)

lemma b32encode_digest:
  assumes "length d = 20"
  shows "length (b32encode d) = 32 \<and> set (b32encode d) \<subseteq> set b32alphabet"
proof -
  have e: "b32encode d = concat (map b32group (chunks_of 5 d))"
    using assms by (simp add: b32encode_whole_groups)
  have "length d = 5 * 4" using assms by simp
  from length_b32_groups [OF this] have "length (b32encode d) = 32" by (simp add: e)
  moreover have "set (b32encode d) \<subseteq> set b32alphabet"
    unfolding e using set_b32group by auto
  ultimately show ?thesis by simp
qed

lemma b32encode_rfc4648_vectors:
  "b32encode [] = ''''"
  "b32encode [0x66] = ''MY======''"
  "b32encode [0x66, 0x6F] = ''MZXQ====''"
  "b32encode [0x66, 0x6F, 0x6F] = ''MZXW6===''"
  "b32encode [0x66, 0x6F, 0x6F, 0x62] = ''MZXW6YQ=''"
  "b32encode [0x66, 0x6F, 0x6F, 0x62, 0x61] = ''MZXW6YTB''"
  "b32encode [0x66, 0x6F, 0x6F, 0x62, 0x61, 0x72] = ''MZXW6YTBOI======''"
  by (simp_all add: b32encode_def b32group_def b32alphabet_def from_bytes_def
        b32pad_def chunks_of_num upt_0_8 Let_def replicate_num del: chunks_of.simps(2))

section \<open>Records without a block\<close>

text \<open>
  C6: on a record with no block attached, \<open>compute_checksum\<close> (with or without a
  payload offset) and \<open>set_content_length\<close> return without raising, their only effect
  is to store \<open>"0"\<close> under \<open>Content-Length\<close>, and so the two digest fields are left as
  they were (none is set).
\<close>

theorem no_block_content_length_zero:
  assumes "block_file r = None"
  shows "compute_checksum payload_offset r =
           (None, r\<lparr>record_fields := setitem (record_fields r) ''Content-Length'' ''0''\<rparr>)
       \<and> set_content_length r =
           (None, r\<lparr>record_fields := setitem (record_fields r) ''Content-Length'' ''0''\<rparr>)
       \<and> getitem (setitem (record_fields r) ''Content-Length'' ''0'') ''Content-Length''
           = Some ''0''
       \<and> getitem (setitem (record_fields r) ''Content-Length'' ''0'') ''WARC-Block-Digest''
           = getitem (record_fields r) ''WARC-Block-Digest''
       \<and> getitem (setitem (record_fields r) ''Content-Length'' ''0'') ''WARC-Payload-Digest''
           = getitem (record_fields r) ''WARC-Payload-Digest''"
  using assms
  by (simp add: compute_checksum_def set_content_length_def getitem_setitem normalize_simps)

theorem no_block_content_length_zero_witness:
  "block_file \<lparr>record_fields = [], block_file = None\<rparr> = None
   \<and> compute_checksum (Some 3) \<lparr>record_fields = [], block_file = None\<rparr> =
       (None, \<lparr>record_fields = [(''Content-Length'', ''0'')], block_file = None\<rparr>)
   \<and> set_content_length \<lparr>record_fields = [], block_file = None\<rparr> =
       (None, \<lparr>record_fields = [(''Content-Length'', ''0'')], block_file = None\<rparr>)
   \<and> getitem [(''Content-Length'', ''0'')] ''WARC-Block-Digest'' = None
   \<and> getitem [(''Content-Length'', ''0'')] ''WARC-Payload-Digest'' = None"
  using no_block_content_length_zero
          [of "\<lparr>record_fields = [], block_file = None\<rparr>" "Some 3"]
  by (simp add: setitem_def getitem_def normalize_simps)

text \<open>
  C10: on a record with no block attached, iterating the record yields the version
  line, a CRLF, the field block and a CRLF, and then raises when it reaches the block
  section: no record with an empty body is produced.
\<close>

theorem iter_no_block_raises:
  assumes "block_file r = None"
  shows "iter_record r =
           (([encode VERSION, encode CRLF, fields_bytes (record_fields r), encode CRLF],
             Some AttributeError), r)"
  using assms by (simp add: iter_record_def)

theorem iter_no_block_raises_witness:
  "block_file \<lparr>record_fields = [], block_file = None\<rparr> = None
   \<and> snd (fst (iter_record \<lparr>record_fields = [], block_file = None\<rparr>)) = Some AttributeError"
  using iter_no_block_raises [of "\<lparr>record_fields = [], block_file = None\<rparr>"]
  by simp

section \<open>The cursor and the contents of the block\<close>

text \<open>
  C5: \<open>set_content_length\<close>, \<open>compute_checksum\<close> (with any payload offset) and the
  iteration of the record each leave the read cursor of the block where it was before
  the call, on every exit, also when a read raised; the bytes of the block are never
  changed, and the iteration leaves the fields as they were.
\<close>

theorem block_cursor_restored:
  "map_option pos (block_file (snd (set_content_length r))) = map_option pos (block_file r)
   \<and> map_option content (block_file (snd (set_content_length r)))
       = map_option content (block_file r)
   \<and> map_option pos (block_file (snd (compute_checksum payload_offset r)))
       = map_option pos (block_file r)
   \<and> map_option content (block_file (snd (compute_checksum payload_offset r)))
       = map_option content (block_file r)
   \<and> map_option pos (block_file (snd (iter_record r))) = map_option pos (block_file r)
   \<and> map_option content (block_file (snd (iter_record r)))
       = map_option content (block_file r)
   \<and> record_fields (snd (iter_record r)) = record_fields r"
  using set_content_length_block [of r] compute_checksum_block [of payload_offset r]
    iter_record_block [of r]
  by simp

text \<open>A block whose first read raises: the call raises, and the cursor is back at 1.\<close>

theorem block_cursor_restored_witness:
  "fst (compute_checksum None
          \<lparr>record_fields = [],
           block_file = Some \<lparr>content = [1, 2, 3], pos = 1, faults = [True]\<rparr>\<rparr>)
     = Some IOError
   \<and> map_option pos (block_file (snd (compute_checksum None
          \<lparr>record_fields = [],
           block_file = Some \<lparr>content = [1, 2, 3], pos = 1, faults = [True]\<rparr>\<rparr>)))
     = Some 1"
proof -
  have "hash_loop hashlib_sha1 hashlib_sha1 \<lparr>content = [1, 2, 3], pos = 1, faults = [True]\<rparr>
          = (Inl IOError, \<lparr>content = [1, 2, 3], pos = 1, faults = []\<rparr>)"
    by (subst hash_loop.simps) (simp add: read_def)
  then have "fst (compute_checksum None
          \<lparr>record_fields = [],
           block_file = Some \<lparr>content = [1, 2, 3], pos = 1, faults = [True]\<rparr>\<rparr>)
     = Some IOError"
    by (simp add: compute_checksum_def reset_file_offset_def checksum_body_def)
  then show ?thesis
    using block_cursor_restored
      [of "\<lparr>record_fields = [],
            block_file = Some \<lparr>content = [1, 2, 3], pos = 1, faults = [True]\<rparr>\<rparr>" None]
    by simp
qed

section \<open>The digests of a block\<close>

text \<open>
  C1, as the code has it: the reads of \<open>compute_checksum\<close> start at the read cursor of
  the block, not at its first byte. On a block of length \<open>L\<close> whose cursor is at 0 and
  whose reads do not fail, with a payload offset \<open>0 \<le> k \<le> L\<close>, the call returns,
  \<open>WARC-Payload-Digest\<close> is the encoded SHA-1 digest of the bytes \<open>[k:L)\<close> alone, and
  \<open>WARC-Block-Digest\<close> is the encoded SHA-1 digest of the whole block \<open>[0:L)\<close>, whatever
  \<open>k\<close> is; with \<open>k = 0\<close> the payload digest is that of the whole block.
\<close>

theorem digests_from_cursor:
  assumes "block_file r = Some f" and "faults f = []" and "pos f = 0"
    and "0 \<le> k" and "k \<le> int (length (content f))"
  shows "fst (compute_checksum (Some k) r) = None
       \<and> getitem (record_fields (snd (compute_checksum (Some k) r))) ''WARC-Payload-Digest''
           = Some (digest_str (sha1 (drop (nat k) (content f))))
       \<and> getitem (record_fields (snd (compute_checksum (Some k) r))) ''WARC-Block-Digest''
           = Some (digest_str (sha1 (content f)))
       \<and> getitem (record_fields (snd (compute_checksum (Some 0) r))) ''WARC-Payload-Digest''
           = Some (digest_str (sha1 (content f)))"
  using assms compute_checksum_no_faults [OF assms(1,2), of "Some k"]
    compute_checksum_no_faults [OF assms(1,2), of "Some 0"]
    getitem_checksum_fields [of "Some k" f "record_fields r"]
    getitem_checksum_fields [of "Some 0" f "record_fields r"]
  by (simp add: payload_bytes_def)

theorem digests_from_cursor_witness:
  "getitem (record_fields (snd (compute_checksum (Some 0)
      \<lparr>record_fields = [],
       block_file = Some \<lparr>content = [0x61], pos = 0, faults = []\<rparr>\<rparr>)))
     ''WARC-Payload-Digest'' = Some ''sha1:Q336IN72UWT7ZYK5DXOLT2XK5I3XMZ5Y''
   \<and> getitem (record_fields (snd (compute_checksum (Some 1)
      \<lparr>record_fields = [],
       block_file = Some \<lparr>content = [0x61], pos = 0, faults = []\<rparr>\<rparr>)))
     ''WARC-Payload-Digest'' = Some ''sha1:3I42H3S6NNFQ2MSVX7XZKYAYSCX5QBYJ''
   \<and> getitem (record_fields (snd (compute_checksum (Some 1)
      \<lparr>record_fields = [],
       block_file = Some \<lparr>content = [0x61], pos = 0, faults = []\<rparr>\<rparr>)))
     ''WARC-Block-Digest'' = Some ''sha1:Q336IN72UWT7ZYK5DXOLT2XK5I3XMZ5Y''"
  using digests_from_cursor
      [of "\<lparr>record_fields = [],
            block_file = Some \<lparr>content = [0x61], pos = 0, faults = []\<rparr>\<rparr>"
          "\<lparr>content = [0x61], pos = 0, faults = []\<rparr>" 0]
    digests_from_cursor
      [of "\<lparr>record_fields = [],
            block_file = Some \<lparr>content = [0x61], pos = 0, faults = []\<rparr>\<rparr>"
          "\<lparr>content = [0x61], pos = 0, faults = []\<rparr>" 1]
  by (simp add: sha1_a digest_str_a sha1_empty digest_str_empty)

text \<open>
  The claim as stated, for every block: a one-byte block with the cursor at its end gets
  the digest of the empty byte string as its block digest, not the digest of the block.
\<close>

theorem block_digest_from_cursor_counterexample:
  "getitem (record_fields (snd (compute_checksum (Some 0)
      \<lparr>record_fields = [],
       block_file = Some \<lparr>content = [0x61], pos = 1, faults = []\<rparr>\<rparr>)))
     ''WARC-Block-Digest'' \<noteq> Some (digest_str (sha1 [0x61]))"
proof -
  have "getitem (record_fields (snd (compute_checksum (Some 0)
      \<lparr>record_fields = [],
       block_file = Some \<lparr>content = [0x61], pos = 1, faults = []\<rparr>\<rparr>)))
     ''WARC-Block-Digest'' = Some ''sha1:3I42H3S6NNFQ2MSVX7XZKYAYSCX5QBYJ''"
    using compute_checksum_no_faults
      [of "\<lparr>record_fields = [],
            block_file = Some \<lparr>content = [0x61], pos = 1, faults = []\<rparr>\<rparr>"
          "\<lparr>content = [0x61], pos = 1, faults = []\<rparr>" "Some 0"]
      getitem_checksum_fields [of "Some 0" "\<lparr>content = [0x61], pos = 1, faults = []\<rparr>" "[]"]
    by (simp add: sha1_empty digest_str_empty)
  then show ?thesis by (simp add: sha1_a digest_str_a)
qed

section \<open>Idempotence\<close>

text \<open>
  C9: when \<open>compute_checksum\<close> has returned, a second call with the same argument on
  the unchanged block leaves the fields exactly as the first call left them: it stores
  the same values under \<open>WARC-Block-Digest\<close>, \<open>WARC-Payload-Digest\<close> and
  \<open>Content-Length\<close>, and touches no other field.
\<close>

theorem compute_checksum_idempotent:
  assumes "fst (compute_checksum po r) = None"
  shows "record_fields (snd (compute_checksum po (snd (compute_checksum po r))))
           = record_fields (snd (compute_checksum po r))"
proof (cases "block_file r")
  case None
  then show ?thesis by (simp add: compute_checksum_def)
next
  case (Some f)
  from compute_checksum_cases [OF Some, of po] assms obtain fl where
    r1: "compute_checksum po r =
           (None, r\<lparr>record_fields := checksum_fields po f (record_fields r),
                     block_file := Some (f\<lparr>faults := fl\<rparr>)\<rparr>)"
    by auto
  let ?r1 = "r\<lparr>record_fields := checksum_fields po f (record_fields r),
                block_file := Some (f\<lparr>faults := fl\<rparr>)\<rparr>"
  have bf: "block_file ?r1 = Some (f\<lparr>faults := fl\<rparr>)" by simp
  from compute_checksum_cases [OF bf, of po]
  have "record_fields (snd (compute_checksum po ?r1)) = record_fields ?r1"
    by (auto simp: checksum_fields_idem)
  with r1 show ?thesis by simp
qed


theorem compute_checksum_idempotent_witness:
  "fst (compute_checksum (Some 1)
          \<lparr>record_fields = [(''WARC-Type'', ''response'')],
           block_file = Some \<lparr>content = [1, 2, 3], pos = 0, faults = []\<rparr>\<rparr>) = None
   \<and> record_fields (snd (compute_checksum (Some 1) (snd (compute_checksum (Some 1)
          \<lparr>record_fields = [(''WARC-Type'', ''response'')],
           block_file = Some \<lparr>content = [1, 2, 3], pos = 0, faults = []\<rparr>\<rparr>))))
     = record_fields (snd (compute_checksum (Some 1)
          \<lparr>record_fields = [(''WARC-Type'', ''response'')],
           block_file = Some \<lparr>content = [1, 2, 3], pos = 0, faults = []\<rparr>\<rparr>))"
proof -
  have ok: "fst (compute_checksum (Some 1)
          \<lparr>record_fields = [(''WARC-Type'', ''response'')],
           block_file = Some \<lparr>content = [1, 2, 3], pos = 0, faults = []\<rparr>\<rparr>) = None"
    using compute_checksum_no_faults
      [of "\<lparr>record_fields = [(''WARC-Type'', ''response'')],
            block_file = Some \<lparr>content = [1, 2, 3], pos = 0, faults = []\<rparr>\<rparr>"
          "\<lparr>content = [1, 2, 3], pos = 0, faults = []\<rparr>" "Some 1"]
    by simp
  from ok compute_checksum_idempotent [OF ok] show ?thesis by simp
qed

section \<open>Empty blocks\<close>

text \<open>
  C3, as the code has it: an attached block is a stream object, which is true also when
  it holds no bytes, so only a missing block takes the early return. On an attached block
  of length 0 (cursor at 0, reads not failing) \<open>compute_checksum\<close> returns,
  \<open>Content-Length\<close> is \<open>"0"\<close>, \<open>WARC-Block-Digest\<close> is set to the encoded digest of the
  empty byte string, and \<open>WARC-Payload-Digest\<close> is set to the same value when a payload
  offset was given and left as it was otherwise.
\<close>

theorem empty_block_checksum:
  assumes "block_file r = Some f" and "content f = []" and "pos f = 0" and "faults f = []"
  shows "fst (compute_checksum payload_offset r) = None
       \<and> getitem (record_fields (snd (compute_checksum payload_offset r))) ''Content-Length''
           = Some ''0''
       \<and> getitem (record_fields (snd (compute_checksum payload_offset r))) ''WARC-Block-Digest''
           = Some ''sha1:3I42H3S6NNFQ2MSVX7XZKYAYSCX5QBYJ''
       \<and> getitem (record_fields (snd (compute_checksum payload_offset r))) ''WARC-Payload-Digest''
           = (if payload_offset \<noteq> None then Some ''sha1:3I42H3S6NNFQ2MSVX7XZKYAYSCX5QBYJ''
              else getitem (record_fields r) ''WARC-Payload-Digest'')"
proof -
  have "payload_bytes payload_offset f = []"
    using assms(2) by (simp add: payload_bytes_def split: option.split)
  then show ?thesis
    using assms compute_checksum_no_faults [OF assms(1,4), of payload_offset]
      getitem_checksum_fields [of payload_offset f "record_fields r"]
    by (simp add: sha1_empty digest_str_empty str_0)
qed

theorem empty_block_checksum_witness:
  "getitem (record_fields (snd (compute_checksum (Some 0)
      \<lparr>record_fields = [], block_file = Some \<lparr>content = [], pos = 0, faults = []\<rparr>\<rparr>)))
     ''WARC-Payload-Digest'' = Some ''sha1:3I42H3S6NNFQ2MSVX7XZKYAYSCX5QBYJ''
   \<and> getitem (record_fields (snd (compute_checksum (Some 0)
      \<lparr>record_fields = [], block_file = Some \<lparr>content = [], pos = 0, faults = []\<rparr>\<rparr>)))
     ''Content-Length'' = Some ''0''"
  using empty_block_checksum
      [of "\<lparr>record_fields = [], block_file = Some \<lparr>content = [], pos = 0, faults = []\<rparr>\<rparr>"
          "\<lparr>content = [], pos = 0, faults = []\<rparr>" "Some 0"]
  by simp

text \<open>
  The claim as stated: on an empty block, without a payload offset, a block digest is
  set.
\<close>

theorem empty_block_digest_counterexample:
  "getitem (record_fields (snd (compute_checksum None
      \<lparr>record_fields = [], block_file = Some \<lparr>content = [], pos = 0, faults = []\<rparr>\<rparr>)))
     ''WARC-Block-Digest'' \<noteq> None"
  using compute_checksum_no_faults
      [of "\<lparr>record_fields = [], block_file = Some \<lparr>content = [], pos = 0, faults = []\<rparr>\<rparr>"
          "\<lparr>content = [], pos = 0, faults = []\<rparr>" None]
    getitem_checksum_fields [of None "\<lparr>content = [], pos = 0, faults = []\<rparr>" "[]"]
  by simp

section \<open>Presence of the digest fields\<close>

text \<open>
  C4, as the code has it: \<open>compute_checksum\<close> only ever writes fields, it removes none.
  For a record that holds neither digest field before the call, after a call that
  returns, \<open>WARC-Block-Digest\<close> is present iff a block is attached, and
  \<open>WARC-Payload-Digest\<close> is present iff a block is attached and a payload offset was
  supplied.
\<close>

theorem digest_presence:
  assumes "getitem (record_fields r) ''WARC-Block-Digest'' = None"
    and "getitem (record_fields r) ''WARC-Payload-Digest'' = None"
    and "fst (compute_checksum payload_offset r) = None"
  shows "(getitem (record_fields (snd (compute_checksum payload_offset r)))
            ''WARC-Block-Digest'' \<noteq> None) = (block_file r \<noteq> None)
       \<and> (getitem (record_fields (snd (compute_checksum payload_offset r)))
            ''WARC-Payload-Digest'' \<noteq> None)
           = (block_file r \<noteq> None \<and> payload_offset \<noteq> None)"
proof (cases "block_file r")
  case None
  with assms(1,2) show ?thesis
    by (simp add: compute_checksum_def getitem_setitem normalize_simps)
next
  case (Some f)
  from compute_checksum_cases [OF Some, of payload_offset] assms(3) obtain fl where
    "compute_checksum payload_offset r =
       (None, r\<lparr>record_fields := checksum_fields payload_offset f (record_fields r),
                 block_file := Some (f\<lparr>faults := fl\<rparr>)\<rparr>)"
    by auto
  with Some assms(2) getitem_checksum_fields [of payload_offset f "record_fields r"]
  show ?thesis by simp
qed

theorem digest_presence_witness:
  "getitem [] ''WARC-Block-Digest'' = None \<and> getitem [] ''WARC-Payload-Digest'' = None
   \<and> fst (compute_checksum None
        \<lparr>record_fields = [],
         block_file = Some \<lparr>content = [1, 2], pos = 0, faults = []\<rparr>\<rparr>) = None
   \<and> getitem (record_fields (snd (compute_checksum None
        \<lparr>record_fields = [],
         block_file = Some \<lparr>content = [1, 2], pos = 0, faults = []\<rparr>\<rparr>)))
       ''WARC-Block-Digest'' \<noteq> None
   \<and> getitem (record_fields (snd (compute_checksum None
        \<lparr>record_fields = [],
         block_file = Some \<lparr>content = [1, 2], pos = 0, faults = []\<rparr>\<rparr>)))
       ''WARC-Payload-Digest'' = None"
proof -
  let ?r = "\<lparr>record_fields = [],
             block_file = Some \<lparr>content = [1, 2], pos = 0, faults = []\<rparr>\<rparr>"
  have g: "getitem (record_fields ?r) ''WARC-Block-Digest'' = None"
    "getitem (record_fields ?r) ''WARC-Payload-Digest'' = None"
    by (simp_all add: getitem_def)
  have ok: "fst (compute_checksum None ?r) = None"
    using compute_checksum_no_faults
      [of ?r "\<lparr>content = [1, 2], pos = 0, faults = []\<rparr>" None]
    by simp
  from digest_presence [OF g ok] g ok show ?thesis by simp
qed

text \<open>
  The claim as stated, after any call: a call with a payload offset followed by a call
  without one leaves the payload digest of the first call in the fields.
\<close>

theorem stale_payload_digest_counterexample:
  "getitem (record_fields (snd (compute_checksum None (snd (compute_checksum (Some 0)
      \<lparr>record_fields = [],
       block_file = Some \<lparr>content = [0x61], pos = 0, faults = []\<rparr>\<rparr>)))))
     ''WARC-Payload-Digest'' \<noteq> None"
proof -
  let ?f = "\<lparr>content = [0x61], pos = 0, faults = []\<rparr>"
  let ?r = "\<lparr>record_fields = [], block_file = Some ?f\<rparr>"
  have one: "compute_checksum (Some 0) ?r =
      (None, ?r\<lparr>record_fields := checksum_fields (Some 0) ?f []\<rparr>)"
    using compute_checksum_no_faults [of ?r ?f "Some 0"] by simp
  have two: "compute_checksum None (?r\<lparr>record_fields := checksum_fields (Some 0) ?f []\<rparr>) =
      (None, ?r\<lparr>record_fields := checksum_fields None ?f (checksum_fields (Some 0) ?f [])\<rparr>)"
    using compute_checksum_no_faults
      [of "?r\<lparr>record_fields := checksum_fields (Some 0) ?f []\<rparr>" ?f None] by simp
  show ?thesis
    unfolding one snd_conv two
    using getitem_checksum_fields [of None ?f "checksum_fields (Some 0) ?f []"]
      getitem_checksum_fields [of "Some 0" ?f "[]"]
    by simp
qed

section \<open>Negative payload offsets\<close>

text \<open>
  C8, as the code has it: the payload offset is passed to \<open>read\<close> unchecked, and
  \<open>read(-1)\<close> reads to the end of the stream. With the payload offset \<open>-1\<close>, on a
  block whose reads do not fail, \<open>compute_checksum\<close> returns without raising, the block
  digest covers the bytes from the cursor to the end, and the payload digest stored is
  that of the empty byte string.
\<close>

theorem negative_offset_reads_all:
  assumes "block_file r = Some f" and "faults f = []"
  shows "fst (compute_checksum (Some (- 1)) r) = None
       \<and> getitem (record_fields (snd (compute_checksum (Some (- 1)) r)))
            ''WARC-Payload-Digest''
           = Some (digest_str (sha1 []))
       \<and> getitem (record_fields (snd (compute_checksum (Some (- 1)) r)))
            ''WARC-Block-Digest''
           = Some (digest_str (sha1 (drop (pos f) (content f))))"
  using assms compute_checksum_no_faults [OF assms(1,2), of "Some (- 1)"]
    getitem_checksum_fields [of "Some (- 1)" f "record_fields r"]
  by (simp add: payload_bytes_def)

theorem negative_offset_reads_all_witness:
  "fst (compute_checksum (Some (- 1))
      \<lparr>record_fields = [],
       block_file = Some \<lparr>content = [1, 2, 3], pos = 0, faults = []\<rparr>\<rparr>) = None
   \<and> getitem (record_fields (snd (compute_checksum (Some (- 1))
      \<lparr>record_fields = [],
       block_file = Some \<lparr>content = [1, 2, 3], pos = 0, faults = []\<rparr>\<rparr>)))
     ''WARC-Payload-Digest'' = Some ''sha1:3I42H3S6NNFQ2MSVX7XZKYAYSCX5QBYJ''"
  using negative_offset_reads_all
      [of "\<lparr>record_fields = [],
            block_file = Some \<lparr>content = [1, 2, 3], pos = 0, faults = []\<rparr>\<rparr>"
          "\<lparr>content = [1, 2, 3], pos = 0, faults = []\<rparr>"]
  by (simp add: sha1_empty digest_str_empty)

text \<open>
  The claim as stated: with payload offset \<open>-1\<close> the call completes and stores a
  payload digest.
\<close>

theorem negative_offset_counterexample:
  "fst (compute_checksum (Some (- 1))
      \<lparr>record_fields = [],
       block_file = Some \<lparr>content = [0x61], pos = 0, faults = []\<rparr>\<rparr>) = None
   \<and> getitem (record_fields (snd (compute_checksum (Some (- 1))
      \<lparr>record_fields = [],
       block_file = Some \<lparr>content = [0x61], pos = 0, faults = []\<rparr>\<rparr>)))
     ''WARC-Payload-Digest'' = Some ''sha1:3I42H3S6NNFQ2MSVX7XZKYAYSCX5QBYJ''"
  using compute_checksum_no_faults
      [of "\<lparr>record_fields = [],
            block_file = Some \<lparr>content = [0x61], pos = 0, faults = []\<rparr>\<rparr>"
          "\<lparr>content = [0x61], pos = 0, faults = []\<rparr>" "Some (- 1)"]
    getitem_checksum_fields [of "Some (- 1)" "\<lparr>content = [0x61], pos = 0, faults = []\<rparr>" "[]"]
  by (simp add: payload_bytes_def sha1_empty digest_str_empty)

section \<open>The serialized record\<close>

text \<open>
  C2, as the code has it: the block is read from its read cursor, not from its first
  byte. For a record with a block attached whose reads do not fail and whose fields are
  the result of the writes \<open>ws\<close>, the iteration ends without an error and the chunks
  yielded, concatenated, are exactly: the bytes of \<open>WARC/1.0\<close>, CRLF, one field line
  for every name written, in the order of first insertion (the normalized name, a colon
  and a space, the value last written, CRLF), CRLF, the bytes of the block from the
  cursor to its end (the whole block when the cursor is at 0), CRLF CRLF. A name that
  matches a name of the override set without regard to case is normalized to that name.
\<close>

theorem serialized_layout:
  assumes "block_file r = Some f" and "faults f = []" and "record_fields r = writes ws"
  shows "snd (fst (iter_record r)) = None
       \<and> concat (fst (fst (iter_record r))) =
           encode VERSION @ encode CRLF
             @ encode (concat (map (\<lambda>name. name @ '': '' @ last_written ws name @ CRLF)
                 (written_names ws)))
             @ encode CRLF @ drop (pos f) (content f) @ encode (CRLF @ CRLF)
       \<and> (distinct (map (\<lambda>(name, v). normalize_name name) ws) \<longrightarrow>
            concat (fst (fst (iter_record r))) =
              encode VERSION @ encode CRLF
                @ encode (concat (map (\<lambda>(name, v). normalize_name name @ '': '' @ v @ CRLF) ws))
                @ encode CRLF @ drop (pos f) (content f) @ encode (CRLF @ CRLF))
       \<and> (ov \<in> set NAME_OVERRIDES \<longrightarrow> lower name = lower ov \<longrightarrow> normalize_name name = ov)"
proof -
  from iter_record_no_faults [OF assms(1,2)] obtain cs where
    it: "iter_record r =
           (([encode VERSION, encode CRLF, fields_bytes (record_fields r), encode CRLF]
               @ cs @ [encode (CRLF @ CRLF)], None), r)"
    and cs: "concat cs = drop (pos f) (content f)" by blast
  have a: "fields_bytes (record_fields r) =
      encode (concat (map (\<lambda>name. name @ '': '' @ last_written ws name @ CRLF)
        (written_names ws)))"
    unfolding assms(3) fields_bytes_def
    by (subst writes_eq) (simp add: field_line_def comp_def)
  have b: "fields_bytes (record_fields r) =
      encode (concat (map (\<lambda>(name, v). normalize_name name @ '': '' @ v @ CRLF) ws))"
    if "distinct (map (\<lambda>(name, v). normalize_name name) ws)"
    unfolding assms(3) fields_bytes_def writes_distinct [OF that]
    by (simp add: field_line_def comp_def case_prod_unfold)
  have c: "ov \<in> set NAME_OVERRIDES \<longrightarrow> lower name = lower ov \<longrightarrow> normalize_name name = ov"
    using normalize_override by blast
  have "concat (fst (fst (iter_record r))) =
      encode VERSION @ encode CRLF @ fields_bytes (record_fields r)
        @ encode CRLF @ drop (pos f) (content f) @ encode (CRLF @ CRLF)"
    using it cs by simp
  with it a b c show ?thesis by simp
qed

theorem serialized_layout_witness:
  "concat (fst (fst (iter_record
      \<lparr>record_fields = writes [(''warc-type'', ''response''), (''content-length'', ''7''),
                                (''Content-Length'', ''2'')],
       block_file = Some \<lparr>content = [0x61, 0x62], pos = 0, faults = []\<rparr>\<rparr>)))
   = encode (''WARC/1.0'' @ CRLF @ ''WARC-Type: response'' @ CRLF
        @ ''Content-Length: 2'' @ CRLF @ CRLF) @ [0x61, 0x62] @ encode (CRLF @ CRLF)"
proof -
  have n: "normalize_name ''warc-type'' = ''WARC-Type''"
    "normalize_name ''content-length'' = ''Content-Length''"
    "normalize_name ''Content-Length'' = ''Content-Length''"
    by (simp_all add: normalize_name_def NAME_OVERRIDES_def lower_def lower_char_def
          char_of_def bit_Suc_0_iff)
  show ?thesis
    using serialized_layout
      [of "\<lparr>record_fields = writes [(''warc-type'', ''response''),
                                       (''content-length'', ''7''), (''Content-Length'', ''2'')],
            block_file = Some \<lparr>content = [0x61, 0x62], pos = 0, faults = []\<rparr>\<rparr>"
          "\<lparr>content = [0x61, 0x62], pos = 0, faults = []\<rparr>"
          "[(''warc-type'', ''response''), (''content-length'', ''7''),
            (''Content-Length'', ''2'')]"]
    by (simp add: written_names_def last_written_def n encode_def VERSION_def)
qed

text \<open>
  The claim as stated, for every record with a block: a block \<open>ab\<close> with the cursor at
  1 is serialized with the body \<open>b\<close>, not with the bytes of the block from start to end.
\<close>

theorem serialized_block_counterexample:
  "concat (fst (fst (iter_record
      \<lparr>record_fields = [],
       block_file = Some \<lparr>content = [0x61, 0x62], pos = 1, faults = []\<rparr>\<rparr>)))
   \<noteq> encode VERSION @ encode CRLF @ fields_bytes [] @ encode CRLF
       @ [0x61, 0x62] @ encode (CRLF @ CRLF)"
  using iter_record_no_faults
      [of "\<lparr>record_fields = [],
            block_file = Some \<lparr>content = [0x61, 0x62], pos = 1, faults = []\<rparr>\<rparr>"
          "\<lparr>content = [0x61, 0x62], pos = 1, faults = []\<rparr>"]
  by (auto simp: fields_bytes_def encode_def)

section \<open>The encoding of the digest fields\<close>

text \<open>
  C7: every digest field value written by \<open>compute_checksum\<close> is \<open>sha1:\<close> followed by
  the Base32 encoding of RFC 4648 (standard alphabet, padded form) of the SHA-1 digest of
  the bytes hashed; the digest has 20 bytes, so the encoding has 32 characters, all of
  the alphabet; the encoder the code calls computes the encoding of RFC 4648 on every
  input; the digest of the empty byte string encodes to
  \<open>3I42H3S6NNFQ2MSVX7XZKYAYSCX5QBYJ\<close>; and the digest function gives the value of
  FIPS 180 on its example \<open>abc\<close>.
\<close>

theorem digest_field_encoding:
  assumes "block_file r = Some f" and "faults f = []"
  shows "getitem (record_fields (snd (compute_checksum payload_offset r))) ''WARC-Block-Digest''
           = Some (''sha1:'' @ rfc4648_base32 (sha1 (drop (pos f) (content f))))
       \<and> (payload_offset \<noteq> None \<longrightarrow>
            getitem (record_fields (snd (compute_checksum payload_offset r)))
              ''WARC-Payload-Digest''
              = Some (''sha1:'' @ rfc4648_base32 (sha1 (payload_bytes payload_offset f))))
       \<and> length (sha1 m) = 20 \<and> length (rfc4648_base32 (sha1 m)) = 32
       \<and> set (rfc4648_base32 (sha1 m)) \<subseteq> set b32alphabet
       \<and> b32encode d = rfc4648_base32 d
       \<and> ''sha1:'' @ rfc4648_base32 (sha1 []) = ''sha1:3I42H3S6NNFQ2MSVX7XZKYAYSCX5QBYJ''
       \<and> sha1 [0x61, 0x62, 0x63] =
           [0xA9, 0x99, 0x3E, 0x36, 0x47, 0x06, 0x81, 0x6A, 0xBA, 0x3E,
            0x25, 0x71, 0x78, 0x50, 0xC2, 0x6C, 0x9C, 0xD0, 0xD8, 0x9D]"
proof -
  have enc: "b32encode x = rfc4648_base32 x" for x
    by (rule b32encode_rfc4648_all)
  have "''sha1:'' @ b32encode (sha1 []) = ''sha1:3I42H3S6NNFQ2MSVX7XZKYAYSCX5QBYJ''"
    using digest_str_empty by (simp add: sha1_empty digest_str_def)
  then show ?thesis
    using compute_checksum_no_faults [OF assms, of payload_offset]
      getitem_checksum_fields [of payload_offset f "record_fields r"]
      length_sha1 [of m] b32encode_digest [OF length_sha1 [of m]] sha1_abc
    by (simp add: digest_str_def enc [symmetric])
qed

theorem digest_field_encoding_witness:
  "getitem (record_fields (snd (compute_checksum None
      \<lparr>record_fields = [],
       block_file = Some \<lparr>content = [0x61], pos = 0, faults = []\<rparr>\<rparr>)))
     ''WARC-Block-Digest'' = Some ''sha1:Q336IN72UWT7ZYK5DXOLT2XK5I3XMZ5Y''
   \<and> rfc4648_base32 (sha1 [0x61]) = ''Q336IN72UWT7ZYK5DXOLT2XK5I3XMZ5Y''"
proof -
  have "b32encode (sha1 [0x61]) = rfc4648_base32 (sha1 [0x61])"
    by (rule b32encode_rfc4648) (simp add: length_sha1)
  then have "rfc4648_base32 (sha1 [0x61]) = ''Q336IN72UWT7ZYK5DXOLT2XK5I3XMZ5Y''"
    using digest_str_a by (simp add: sha1_a digest_str_def)
  then show ?thesis
    using digest_field_encoding
      [of "\<lparr>record_fields = [],
            block_file = Some \<lparr>content = [0x61], pos = 0, faults = []\<rparr>\<rparr>"
          "\<lparr>content = [0x61], pos = 0, faults = []\<rparr>" None "[0x61]" "[]"]
    by simp
qed

end
